theory Spec2Isabelle
  imports Main "HOL-Library.Word" "HOL-Library.Sublist"
begin

section \<open>Python values and string formatting\<close>

text \<open>
  The script \<^verbatim>\<open>script.py\<close> reads CAN messages from python-can's \<^verbatim>\<open>BLFReader\<close> and writes
  them with \<^verbatim>\<open>csv.DictWriter\<close>. Both libraries are outside the repository: the messages the
  reader yields (or the exception it raises) are input of the model, and the CSV file is the
  list of rows handed to the writer.

  A value stored in a row dictionary is \<^verbatim>\<open>None\<close>, an integer or a string.
\<close>

datatype pyval = PyNone | PyInt int | PyStr string

text \<open>\<^verbatim>\<open>str(b)\<close> for a bool.\<close>

definition str_bool :: "bool \<Rightarrow> string" where
  "str_bool b = (if b then ''True'' else ''False'')"

text \<open>Decimal digits of a natural number: \<^verbatim>\<open>str(n)\<close>, \<^verbatim>\<open>f"{n}"\<close> for \<open>n \<ge> 0\<close>.\<close>

definition dec_digit :: "nat \<Rightarrow> char" where
  "dec_digit d = ''0123456789'' ! d"

fun str_nat :: "nat \<Rightarrow> string" where
  "str_nat n = (if n < 10 then [dec_digit n] else str_nat (n div 10) @ [dec_digit (n mod 10)])"

declare str_nat.simps [simp del]

text \<open>Upper-case hexadecimal digits: the presentation type \<^verbatim>\<open>X\<close> of Python's format.\<close>

definition hex_digit :: "nat \<Rightarrow> char" where
  "hex_digit d = ''0123456789ABCDEF'' ! d"

fun hex_upper :: "nat \<Rightarrow> string" where
  "hex_upper n = (if n < 16 then [hex_digit n] else hex_upper (n div 16) @ [hex_digit (n mod 16)])"

declare hex_upper.simps [simp del]

text \<open>\<^verbatim>\<open>f"{i:X}"\<close>: a negative integer is printed as a minus sign and the digits of its
  absolute value.\<close>

definition format_X :: "int \<Rightarrow> string" where
  "format_X i = (if i < 0 then ''-'' @ hex_upper (nat (- i)) else hex_upper (nat i))"

text \<open>Zero padding on the left up to a width, as the \<^verbatim>\<open>0\<close> flag of a format does.\<close>

definition zfill :: "nat \<Rightarrow> string \<Rightarrow> string" where
  "zfill w s = replicate (w - length s) (CHR ''0'') @ s"

text \<open>\<^verbatim>\<open>f"{byte:02X}"\<close> for an element of a \<^verbatim>\<open>bytearray\<close> (an integer in 0..255).\<close>

definition format_02X :: "8 word \<Rightarrow> string" where
  "format_02X b = zfill 2 (hex_upper (unat b))"

text \<open>\<^verbatim>\<open>sep.join(xs)\<close>.\<close>

fun join :: "string \<Rightarrow> string list \<Rightarrow> string" where
  "join sep [] = []"
| "join sep [x] = x"
| "join sep (x # y # ys) = x @ sep @ join sep (y # ys)"

text \<open>\<^verbatim>\<open>s.split(c)\<close> for a separator of one character.\<close>

fun split_sep :: "char \<Rightarrow> string \<Rightarrow> string list" where
  "split_sep c [] = [[]]"
| "split_sep c (x # xs) =
     (if x = c then [] # split_sep c xs
      else (case split_sep c xs of [] \<Rightarrow> [[x]] | w # ws \<Rightarrow> (x # w) # ws))"

text \<open>
  Reading a formatted field back, to state what a format preserves: the value of a digit
  character and of a digit string in a base.
\<close>

definition digit_value :: "char \<Rightarrow> nat" where
  "digit_value c =
     (if c \<in> set ''0123456789'' then of_char c - 48
      else if c \<in> set ''ABCDEF'' then of_char c - 55 else 0)"

definition base_value :: "nat \<Rightarrow> string \<Rightarrow> nat" where
  "base_value b s = foldl (\<lambda>a c. b * a + digit_value c) 0 s"

definition hex_value :: "string \<Rightarrow> nat" where
  "hex_value s = base_value 16 s"

definition is_dec_digit :: "char \<Rightarrow> bool" where
  "is_dec_digit c = (c \<in> set ''0123456789'')"

definition is_hex_upper_digit :: "char \<Rightarrow> bool" where
  "is_hex_upper_digit c = (c \<in> set ''0123456789ABCDEF'')"

text \<open>
  A decimal number with exactly \<open>k\<close> fractional digits: an optional minus sign, digits, a
  point, and \<open>k\<close> digits up to the end.
\<close>

definition fixed_point :: "nat \<Rightarrow> string \<Rightarrow> bool" where
  "fixed_point k s =
     (let body = (if s \<noteq> [] \<and> hd s = CHR ''-'' then tl s else s);
          n = length body
      in k + 1 < n \<and> body ! (n - (k + 1)) = CHR ''.''
         \<and> list_all is_dec_digit (take (n - (k + 1)) body)
         \<and> list_all is_dec_digit (drop (n - k) body))"

text \<open>
  Reading such a number back: whether it has the minus sign, and the natural number its
  digits denote when the point is left out, so that a string with \<open>k\<close> fractional digits
  stands for \<open>unscaled_value s / 10 ^ k\<close>.
\<close>

definition has_minus :: "string \<Rightarrow> bool" where
  "has_minus s = (s \<noteq> [] \<and> hd s = CHR ''-'')"

definition unscaled_value :: "string \<Rightarrow> nat" where
  "unscaled_value s =
     base_value 10 (filter (\<lambda>c. c \<noteq> CHR ''.'') (if has_minus s then tl s else s))"

text \<open>The groups of a space-separated field; the empty field has none.\<close>

definition groups :: "string \<Rightarrow> string list" where
  "groups s = (if s = [] then [] else split_sep (CHR '' '') s)"

definition two_hex_digits :: "string \<Rightarrow> bool" where
  "two_hex_digits g = (length g = 2 \<and> list_all is_hex_upper_digit g)"

text \<open>
  A hexadecimal literal: \<^verbatim>\<open>0x\<close>, an optional minus sign, and upper-case digits; and the
  integer it denotes.
\<close>

definition hex_literal :: "string \<Rightarrow> bool" where
  "hex_literal s =
     (let d = drop 2 s; h = (if d \<noteq> [] \<and> hd d = CHR ''-'' then tl d else d)
      in take 2 s = ''0x'' \<and> h \<noteq> [] \<and> list_all is_hex_upper_digit h)"

definition hex_literal_value :: "string \<Rightarrow> int" where
  "hex_literal_value s =
     (let d = drop 2 s
      in if d \<noteq> [] \<and> hd d = CHR ''-'' then - int (hex_value (tl d)) else int (hex_value d))"

subsection \<open>Timestamps\<close>

text \<open>
  A message timestamp is a Python \<^verbatim>\<open>float\<close>. The reader computes it from a 64-bit tick count
  and the start time of the measurement, so it is a finite double: a sign, and a magnitude
  \<open>mantissa * 2 ^ exponent\<close>.

  \<^verbatim>\<open>f"{x:.6f}"\<close> prints the decimal number with six fractional digits that is nearest to the
  exact binary value, ties going to the even neighbour; the sign of a negative float stays
  also when the digits are all zero.
\<close>

record pyfloat =
  negative :: bool
  mantissa :: nat
  exponent :: int

definition round_half_even :: "nat \<Rightarrow> nat \<Rightarrow> nat" where
  "round_half_even n d =
     (let q = n div d; r = n mod d
      in if d < 2 * r \<or> (2 * r = d \<and> odd q) then q + 1 else q)"

definition micros :: "pyfloat \<Rightarrow> nat" where
  "micros x =
     (if 0 \<le> exponent x then mantissa x * 2 ^ nat (exponent x) * 10 ^ 6
      else round_half_even (mantissa x * 10 ^ 6) (2 ^ nat (- exponent x)))"

definition format_6f :: "pyfloat \<Rightarrow> string" where
  "format_6f x =
     (let n = micros x
      in (if negative x then ''-'' else '''') @ str_nat (n div 10 ^ 6) @ ''.''
           @ zfill 6 (str_nat (n mod 10 ^ 6)))"

text \<open>
  What the format has to print, said without the algorithm: \<open>n\<close> millionths is a nearest
  value to the magnitude \<open>mantissa * 2 ^ exponent\<close>, that is, they differ by at most half a
  millionth, and by exactly half only when \<open>n\<close> is even. With \<open>num / den\<close> the magnitude in
  millionths, the difference \<open>\<bar>n - num / den\<bar>\<close> is at most \<open>1 / 2\<close>.
\<close>

definition nearest_micros :: "pyfloat \<Rightarrow> nat \<Rightarrow> bool" where
  "nearest_micros x n =
     (let num = int (mantissa x) * 10 ^ 6 * (if 0 \<le> exponent x then 2 ^ nat (exponent x) else 1);
          den = (if 0 \<le> exponent x then 1 else 2 ^ nat (- exponent x));
          err = 2 * \<bar>int n * den - num\<bar>
      in err \<le> den \<and> (err = den \<longrightarrow> even n))"

section \<open>Messages and rows\<close>

text \<open>
  The attributes of a \<^verbatim>\<open>can.Message\<close> that the script reads. \<open>channel\<close> is \<open>None\<close> when the
  object has no attribute of that name (\<^verbatim>\<open>hasattr(msg, 'channel')\<close> is false), and \<open>Some v\<close>
  when the attribute holds the value \<open>v\<close>. \<open>data\<close> is a \<^verbatim>\<open>bytearray\<close>.
\<close>

record msg =
  timestamp :: pyfloat
  channel :: "pyval option"
  arbitration_id :: int
  is_extended_id :: bool
  is_remote_frame :: bool
  is_error_frame :: bool
  dlc :: int
  data :: "8 word list"

definition fieldnames :: "string list" where
  "fieldnames =
     [''timestamp'', ''channel'', ''arbitration_id'', ''is_extended_id'',
      ''is_remote_frame'', ''is_error_frame'', ''dlc'', ''data'']"

text \<open>
  \<^verbatim>\<open>data_hex = ' '.join([f'{byte:02X}' for byte in msg.data]) if msg.data else ''\<close>
\<close>

definition data_hex :: "msg \<Rightarrow> string" where
  "data_hex m = (if data m \<noteq> [] then join '' '' (map format_02X (data m)) else '''')"

text \<open>The dictionary \<^verbatim>\<open>row\<close>, in the order of its keys.\<close>

definition row :: "msg \<Rightarrow> (string \<times> pyval) list" where
  "row m =
     [(''timestamp'', PyStr (format_6f (timestamp m))),
      (''channel'', (case channel m of Some v \<Rightarrow> v | None \<Rightarrow> PyStr ''N/A'')),
      (''arbitration_id'', PyStr (''0x'' @ format_X (arbitration_id m))),
      (''is_extended_id'', PyStr (str_bool (is_extended_id m))),
      (''is_remote_frame'', PyStr (str_bool (is_remote_frame m))),
      (''is_error_frame'', PyStr (str_bool (is_error_frame m))),
      (''dlc'', PyInt (dlc m)),
      (''data'', PyStr (data_hex m))]"

text \<open>
  \<^verbatim>\<open>csv.DictWriter\<close>: \<^verbatim>\<open>writeheader\<close> writes the field names, \<^verbatim>\<open>writerow\<close> the values of a
  dictionary in the order of the field names (the empty string for a missing key). A line of
  the file is kept as the list of its cells; the text the csv module renders a cell to is not
  modelled.
\<close>

definition writeheader :: "string list \<Rightarrow> pyval list" where
  "writeheader fns = map PyStr fns"

definition writerow :: "string list \<Rightarrow> (string \<times> pyval) list \<Rightarrow> pyval list" where
  "writerow fns r = map (\<lambda>k. case map_of r k of Some v \<Rightarrow> v | None \<Rightarrow> PyStr '''') fns"

text \<open>The cell of a written line under a column name.\<close>

definition column :: "string \<Rightarrow> pyval list \<Rightarrow> pyval option" where
  "column k line = map_of (zip fieldnames line) k"

text \<open>
  Modelled from the spec: the byte length a DLC stands for, "identity for DLC \<open>\<le>\<close> 8; FD length
  table for DLC 9--15". The script has no such function; the table is the one of CAN FD.
\<close>

definition dlc_to_byte_length :: "int \<Rightarrow> nat option" where
  "dlc_to_byte_length d =
     (if 0 \<le> d \<and> d \<le> 8 then Some (nat d)
      else if d = 9 then Some 12 else if d = 10 then Some 16 else if d = 11 then Some 20
      else if d = 12 then Some 24 else if d = 13 then Some 32 else if d = 14 then Some 48
      else if d = 15 then Some 64 else None)"

text \<open>A message, and a written line, whose data has the length its DLC stands for.\<close>

definition dlc_consistent :: "msg \<Rightarrow> bool" where
  "dlc_consistent m = (dlc_to_byte_length (dlc m) = Some (length (data m)))"

definition line_dlc_consistent :: "pyval list \<Rightarrow> bool" where
  "line_dlc_consistent line =
     (case (column ''dlc'' line, column ''data'' line) of
        (Some (PyInt d), Some (PyStr s)) \<Rightarrow> dlc_to_byte_length d = Some (length (groups s))
      | _ \<Rightarrow> False)"


section \<open>Exceptions, the reader and the file system\<close>

text \<open>
  The exceptions that opening a file, constructing the reader, iterating it and pathlib raise
  all derive from \<^verbatim>\<open>Exception\<close>; the script tells \<^verbatim>\<open>FileNotFoundError\<close> and
  \<^verbatim>\<open>PermissionError\<close> from the rest. \<open>exn_str\<close> is \<^verbatim>\<open>str(e)\<close>. \<open>raised_at\<close> is the byte
  position of the input at which the failure occurred; a Python exception object carries no
  such attribute, the field only records the fact. Signals delivered from outside
  (\<^verbatim>\<open>KeyboardInterrupt\<close>) are not part of the model.
\<close>

datatype exc_class = FileNotFoundError | PermissionError | OtherException string

record exn =
  exn_class :: exc_class
  exn_str :: string
  raised_at :: nat


text \<open>
  What iterating the reader does, one item per call of \<^verbatim>\<open>next\<close>: it yields a message or
  raises. The list ends where the reader stops. Items after a \<open>Raise\<close> stand for what the rest
  of the file holds; the iteration never reaches them.
\<close>

datatype stream_item = Yield msg | Raise exn

text \<open>
  An input file as the reader sees it: \<^verbatim>\<open>BLFReader(blf_file)\<close> raises when the file header is
  not accepted, and otherwise gives the iterator.
\<close>

record blf_file =
  header_error :: "exn option"
  objects :: "stream_item list"

definition BLFReader :: "blf_file \<Rightarrow> exn + stream_item list" where
  "BLFReader f = (case header_error f of Some e \<Rightarrow> Inl e | None \<Rightarrow> Inr (objects f))"

text \<open>
  The world the program runs in: which paths exist, what opening a path for reading or for
  writing does, the text files written so far, and the lines printed.
\<close>

record world =
  path_exists :: "string \<Rightarrow> bool"
  open_rb :: "string \<Rightarrow> exn + blf_file"
  open_w :: "string \<Rightarrow> exn option"
  files :: "string \<rightharpoonup> pyval list list"
  stdout :: "string list"

definition print :: "string \<Rightarrow> world \<Rightarrow> world" where
  "print s w = w\<lparr>stdout := stdout w @ [s]\<rparr>"

definition quoted :: "string \<Rightarrow> string" where
  "quoted s = [CHR 0x27] @ s @ [CHR 0x27]"

section \<open>The conversion\<close>

text \<open>The variables of the loop: the lines of the CSV file, the two counters, the output.\<close>

record conv_state =
  csv_rows :: "pyval list list"
  message_count :: nat
  error_count :: nat
  printed :: "string list"

text \<open>The body of \<^verbatim>\<open>for msg in reader\<close>.\<close>

definition loop_body :: "bool \<Rightarrow> msg \<Rightarrow> conv_state \<Rightarrow> conv_state" where
  "loop_body include_error_frames m s =
     (if is_error_frame m \<and> \<not> include_error_frames
      then s\<lparr>error_count := error_count s + 1\<rparr>
      else
        let s1 = s\<lparr>csv_rows := csv_rows s @ [writerow fieldnames (row m)],
                   message_count := message_count s + 1\<rparr>
        in if message_count s1 mod 10000 = 0
           then s1\<lparr>printed := printed s1 @
                  [''Processed '' @ str_nat (message_count s1) @ '' messages...'']\<rparr>
           else s1)"

fun for_loop :: "bool \<Rightarrow> stream_item list \<Rightarrow> conv_state \<Rightarrow> exn option \<times> conv_state" where
  "for_loop inc [] s = (None, s)"
| "for_loop inc (Raise e # rest) s = (Some e, s)"
| "for_loop inc (Yield m # rest) s = for_loop inc rest (loop_body inc m s)"

text \<open>
  What the loop sees of a reader: the messages before the first exception, and that
  exception. \<open>written\<close> tells the messages that get a row.
\<close>

fun yielded :: "stream_item list \<Rightarrow> msg list" where
  "yielded [] = []"
| "yielded (Raise e # rest) = []"
| "yielded (Yield m # rest) = m # yielded rest"

fun first_raise :: "stream_item list \<Rightarrow> exn option" where
  "first_raise [] = None"
| "first_raise (Raise e # rest) = Some e"
| "first_raise (Yield m # rest) = first_raise rest"

definition written :: "bool \<Rightarrow> msg \<Rightarrow> bool" where
  "written include_error_frames m = (\<not> (is_error_frame m \<and> \<not> include_error_frames))"

text \<open>The lines printed after the loop.\<close>

definition summary :: "string \<Rightarrow> conv_state \<Rightarrow> string list" where
  "summary csv_file_path s =
     [CHR 0x0A # ''Conversion completed successfully!'',
      ''Messages processed: '' @ str_nat (message_count s)]
     @ (if error_count s > 0 then [''Error frames skipped: '' @ str_nat (error_count s)] else [])
     @ [''Output file: '' @ csv_file_path]"

text \<open>
  The \<^verbatim>\<open>try\<close> block: the exception that leaves it, if any, and the world it leaves behind.
  Opening the CSV file creates or truncates it; the file is closed, with all it was given,
  when the \<^verbatim>\<open>with\<close> block is left, by an exception too.
\<close>

definition try_block :: "world \<Rightarrow> string \<Rightarrow> string \<Rightarrow> bool \<Rightarrow> exn option \<times> world" where
  "try_block w blf_file_path csv_file_path include_error_frames =
     (case open_rb w blf_file_path of
        Inl e \<Rightarrow> (Some e, w)
      | Inr f \<Rightarrow>
          (case BLFReader f of
             Inl e \<Rightarrow> (Some e, w)
           | Inr reader \<Rightarrow>
               (case open_w w csv_file_path of
                  Some e \<Rightarrow> (Some e, w)
                | None \<Rightarrow>
                    let s0 = \<lparr>csv_rows = [writeheader fieldnames], message_count = 0,
                              error_count = 0, printed = stdout w\<rparr>;
                        (r, s) = for_loop include_error_frames reader s0;
                        w' = w\<lparr>files := (files w)(csv_file_path \<mapsto> csv_rows s),
                               stdout := printed s\<rparr>
                    in (case r of
                          Some e \<Rightarrow> (Some e, w')
                        | None \<Rightarrow>
                            (None, w'\<lparr>stdout := stdout w' @ summary csv_file_path s\<rparr>)))))"

text \<open>The line an \<^verbatim>\<open>except\<close> clause prints.\<close>

definition report :: "string \<Rightarrow> exn \<Rightarrow> string" where
  "report blf_file_path e =
     (case exn_class e of
        FileNotFoundError \<Rightarrow> ''Error: BLF file '' @ quoted blf_file_path @ '' not found.''
      | PermissionError \<Rightarrow> ''Error: Permission denied accessing files.''
      | OtherException n \<Rightarrow> ''Error during conversion: '' @ exn_str e)"

definition convert_blf_to_csv :: "world \<Rightarrow> string \<Rightarrow> string \<Rightarrow> bool \<Rightarrow> bool \<times> world" where
  "convert_blf_to_csv w blf_file_path csv_file_path include_error_frames =
     (case try_block w blf_file_path csv_file_path include_error_frames of
        (None, w') \<Rightarrow> (True, w')
      | (Some e, w') \<Rightarrow> (False, print (report blf_file_path e) w'))"

section \<open>Paths and the command line\<close>

text \<open>
  \<^verbatim>\<open>pathlib.Path\<close> on a POSIX system: a path is a root and its components; empty components
  and \<^verbatim>\<open>.\<close> are dropped when a string is parsed.
\<close>

record path =
  root :: string
  parts :: "string list"

definition Path :: "string \<Rightarrow> path" where
  "Path s =
     \<lparr>root = (if take 2 s = ''//'' \<and> take 3 s \<noteq> ''///'' then ''//''
              else if take 1 s = ''/'' then ''/'' else ''''),
      parts = filter (\<lambda>c. c \<noteq> '''' \<and> c \<noteq> ''.'') (split_sep (CHR ''/'') s)\<rparr>"

definition str_path :: "path \<Rightarrow> string" where
  "str_path p = (if root p = '''' \<and> parts p = [] then ''.'' else root p @ join ''/'' (parts p))"

definition path_name :: "path \<Rightarrow> string" where
  "path_name p = (if parts p = [] then '''' else last (parts p))"

text \<open>\<^verbatim>\<open>name.rfind(c)\<close>: the index of the last occurrence.\<close>

fun rfind :: "char \<Rightarrow> string \<Rightarrow> nat option" where
  "rfind c [] = None"
| "rfind c (x # xs) =
     (case rfind c xs of Some i \<Rightarrow> Some (Suc i) | None \<Rightarrow> if x = c then Some 0 else None)"

definition path_suffix :: "string \<Rightarrow> string" where
  "path_suffix name =
     (case rfind (CHR ''.'') name of
        Some i \<Rightarrow> if 0 < i \<and> i + 1 < length name then drop i name else ''''
      | None \<Rightarrow> '''')"

definition ValueError :: "string \<Rightarrow> exn" where
  "ValueError s = \<lparr>exn_class = OtherException ''ValueError'', exn_str = s, raised_at = 0\<rparr>"

definition with_suffix :: "path \<Rightarrow> string \<Rightarrow> exn + path" where
  "with_suffix p sfx =
     (if CHR ''/'' \<in> set sfx then Inl (ValueError (''Invalid suffix '' @ quoted sfx))
      else if (sfx \<noteq> '''' \<and> take 1 sfx \<noteq> ''.'') \<or> sfx = ''.''
      then Inl (ValueError (''Invalid suffix '' @ quoted sfx))
      else
        let name = path_name p
        in if name = ''''
           then Inl (ValueError (''PosixPath('' @ quoted (str_path p) @ '') has an empty name''))
           else
             let old_suffix = path_suffix name;
                 name' = (if old_suffix = '''' then name @ sfx
                          else take (length name - length old_suffix) name @ sfx)
             in Inr (p\<lparr>parts := butlast (parts p) @ [name']\<rparr>))"

text \<open>
  The parsed command line. \<open>output_file\<close> is \<open>None\<close> when the optional argument is absent.
\<close>

record args =
  input_file :: string
  output_file :: "string option"
  include_errors :: bool

text \<open>
  \<^verbatim>\<open>if args.output_file: output_path = Path(args.output_file)\<close>
  \<^verbatim>\<open>else: output_path = input_path.with_suffix('.csv')\<close>
  The test is Python's truth value: \<^verbatim>\<open>None\<close> and the empty string are false.
\<close>

definition determine_output_path :: "args \<Rightarrow> path \<Rightarrow> exn + path" where
  "determine_output_path a input_path =
     (case output_file a of
        Some s \<Rightarrow> if s \<noteq> '''' then Inr (Path s) else with_suffix input_path ''.csv''
      | None \<Rightarrow> with_suffix input_path ''.csv'')"

text \<open>
  \<^verbatim>\<open>main\<close> returns the exit status that \<^verbatim>\<open>sys.exit\<close> receives, or is left by the exception
  of \<^verbatim>\<open>with_suffix\<close>, which nothing catches.
\<close>

definition main :: "world \<Rightarrow> args \<Rightarrow> (exn + nat) \<times> world" where
  "main w a =
     (let input_path = Path (input_file a)
      in if \<not> path_exists w (str_path input_path)
         then (Inr 1,
               print (''Error: Input file '' @ quoted (input_file a) @ '' does not exist.'') w)
         else
           (case determine_output_path a input_path of
              Inl e \<Rightarrow> (Inl e, w)
            | Inr output_path \<Rightarrow>
                let w1 = print (''Converting BLF file: '' @ str_path input_path) w;
                    w2 = print (''Output CSV file: '' @ str_path output_path) w1;
                    w3 = print (''Include error frames: '' @ str_bool (include_errors a)) w2;
                    w4 = print (replicate 50 (CHR ''-'')) w3;
                    (success, w5) = convert_blf_to_csv w4 (str_path input_path)
                                      (str_path output_path) (include_errors a)
                in (Inr (if success then 0 else 1), w5)))"

text \<open>
  The rest of \<^verbatim>\<open>main\<close> once the output path is known: the four lines it prints, and the
  conversion with the exit status made of its result.
\<close>

definition banner :: "world \<Rightarrow> args \<Rightarrow> path \<Rightarrow> world" where
  "banner w a output_path =
     print (replicate 50 (CHR ''-''))
       (print (''Include error frames: '' @ str_bool (include_errors a))
         (print (''Output CSV file: '' @ str_path output_path)
           (print (''Converting BLF file: '' @ str_path (Path (input_file a))) w)))"

definition main_with_output :: "world \<Rightarrow> args \<Rightarrow> path \<Rightarrow> (exn + nat) \<times> world" where
  "main_with_output w a output_path =
     (let (success, w5) = convert_blf_to_csv (banner w a output_path)
                            (str_path (Path (input_file a))) (str_path output_path)
                            (include_errors a)
      in (Inr (if success then 0 else 1), w5))"

section \<open>Example inputs\<close>

text \<open>
  A standard CAN message with ID \<open>0x123\<close> and four data bytes at 1.5 s, an error frame, and
  two messages that break the invariants of the specification: one whose data is shorter than
  its DLC says, one whose 11-bit ID is \<open>0x800\<close>.
\<close>

definition example_can_msg :: msg where
  "example_can_msg =
     \<lparr>timestamp = \<lparr>negative = False, mantissa = 3, exponent = - 1\<rparr>, channel = Some (PyInt 0),
      arbitration_id = 0x123, is_extended_id = False, is_remote_frame = False,
      is_error_frame = False, dlc = 4, data = [0x01, 0x02, 0x03, 0x04]\<rparr>"

definition example_error_frame :: msg where
  "example_error_frame =
     \<lparr>timestamp = \<lparr>negative = False, mantissa = 3, exponent = - 1\<rparr>, channel = None,
      arbitration_id = 0, is_extended_id = False, is_remote_frame = False,
      is_error_frame = True, dlc = 0, data = []\<rparr>"

definition short_data_msg :: msg where
  "short_data_msg = example_can_msg\<lparr>data := []\<rparr>"



definition no_such_file :: exn where
  "no_such_file =
     \<lparr>exn_class = FileNotFoundError, exn_str = ''[Errno 2] No such file or directory'',
      raised_at = 0\<rparr>"

text \<open>
  A world with one input file, \<^verbatim>\<open>in.blf\<close>, that the reader decodes to the given items; every
  path can be opened for writing; nothing is written or printed yet.
\<close>

definition example_world :: "stream_item list \<Rightarrow> world" where
  "example_world xs =
     \<lparr>path_exists = (\<lambda>p. p = ''in.blf''),
      open_rb = (\<lambda>p. if p = ''in.blf'' then Inr \<lparr>header_error = None, objects = xs\<rparr>
                     else Inl no_such_file),
      open_w = (\<lambda>p. None),
      files = Map.empty,
      stdout = []\<rparr>"



text \<open>
  Command lines: \<^verbatim>\<open>script.py in.blf\<close>, \<^verbatim>\<open>script.py in.blf ""\<close>,
  \<^verbatim>\<open>script.py in.blf out/log.csv\<close> and \<^verbatim>\<open>script.py missing.blf\<close>.
\<close>

definition default_output_args :: args where
  "default_output_args = \<lparr>input_file = ''in.blf'', output_file = None, include_errors = False\<rparr>"

definition empty_output_args :: args where
  "empty_output_args = \<lparr>input_file = ''in.blf'', output_file = Some '''', include_errors = False\<rparr>"

definition given_output_args :: args where
  "given_output_args =
     \<lparr>input_file = ''in.blf'', output_file = Some ''out/log.csv'', include_errors = False\<rparr>"

definition missing_input_args :: args where
  "missing_input_args =
     \<lparr>input_file = ''missing.blf'', output_file = None, include_errors = False\<rparr>"

text \<open>
  A world where the only existing path is \<^verbatim>\<open>.hidden\<close>, a file name that starts with its
  only dot, and the command line \<^verbatim>\<open>script.py .hidden\<close>.
\<close>

definition hidden_world :: world where
  "hidden_world = (example_world [])\<lparr>path_exists := (\<lambda>p. p = ''.hidden'')\<rparr>"

definition hidden_input_args :: args where
  "hidden_input_args =
     \<lparr>input_file = ''.hidden'', output_file = None, include_errors = False\<rparr>"


section \<open>Properties of the formats\<close>

text \<open>
  The equations of the digit functions, for evaluating them on numerals only: as plain
  rewrite rules they would unfold without end on a variable.
\<close>

lemmas str_nat_eval =
  str_nat.simps [of "numeral k" for k] str_nat.simps [of 0] str_nat.simps [of "Suc 0"]

lemmas hex_upper_eval =
  hex_upper.simps [of "numeral k" for k] hex_upper.simps [of 0] hex_upper.simps [of "Suc 0"]

lemma dec_digit_ok: "d < 10 \<Longrightarrow> is_dec_digit (dec_digit d)"
proof -
  assume "d < 10"
  then have "d = 0 \<or> d = 1 \<or> d = 2 \<or> d = 3 \<or> d = 4 \<or> d = 5 \<or> d = 6 \<or> d = 7 \<or> d = 8
      \<or> d = 9" by arith
  then show ?thesis
    by (elim disjE) (simp_all add: dec_digit_def is_dec_digit_def)
qed

lemma hex_digit_ok: "d < 16 \<Longrightarrow> is_hex_upper_digit (hex_digit d) \<and> digit_value (hex_digit d) = d"
proof -
  assume "d < 16"
  then have "d = 0 \<or> d = 1 \<or> d = 2 \<or> d = 3 \<or> d = 4 \<or> d = 5 \<or> d = 6 \<or> d = 7 \<or> d = 8
      \<or> d = 9 \<or> d = 10 \<or> d = 11 \<or> d = 12 \<or> d = 13 \<or> d = 14 \<or> d = 15" by arith
  then show ?thesis
    by (elim disjE) (simp_all add: hex_digit_def is_hex_upper_digit_def digit_value_def)
qed

lemma str_nat_digits: "c \<in> set (str_nat n) \<Longrightarrow> is_dec_digit c"
proof (induction n rule: str_nat.induct)
  case (1 n)
  show ?case
  proof (cases "n < 10")
    case True
    with 1(2) show ?thesis by (subst (asm) str_nat.simps) (simp add: dec_digit_ok)
  next
    case False
    with 1 show ?thesis by (subst (asm) str_nat.simps) (auto simp: dec_digit_ok)
  qed
qed

lemma hex_upper_digits: "c \<in> set (hex_upper n) \<Longrightarrow> is_hex_upper_digit c"
proof (induction n rule: hex_upper.induct)
  case (1 n)
  show ?case
  proof (cases "n < 16")
    case True
    with 1(2) show ?thesis by (subst (asm) hex_upper.simps) (simp add: hex_digit_ok)
  next
    case False
    with 1 show ?thesis by (subst (asm) hex_upper.simps) (auto simp: hex_digit_ok)
  qed
qed

lemma base_value_snoc: "base_value b (s @ [c]) = b * base_value b s + digit_value c"
  by (simp add: base_value_def)

lemma hex_value_hex_upper: "hex_value (hex_upper n) = n"
proof (induction n rule: hex_upper.induct)
  case (1 n)
  show ?case
  proof (cases "n < 16")
    case True
    then show ?thesis
      by (subst hex_upper.simps) (simp add: hex_value_def base_value_def hex_digit_ok)
  next
    case False
    with 1 show ?thesis
      by (subst hex_upper.simps) (simp add: hex_value_def base_value_snoc hex_digit_ok)
  qed
qed

lemma str_nat_length: "n < 10 ^ k \<Longrightarrow> 0 < k \<Longrightarrow> length (str_nat n) \<le> k"
proof (induction n arbitrary: k rule: str_nat.induct)
  case (1 n)
  show ?case
  proof (cases "n < 10")
    case True
    with 1(3) show ?thesis by (subst str_nat.simps) simp
  next
    case False
    obtain j where k: "k = Suc j" using 1(3) by (cases k) auto
    from False 1(2) k have j: "0 < j" by (cases j) auto
    from 1(2) k have "n div 10 < 10 ^ j"
      by (simp add: less_mult_imp_div_less mult.commute)
    with 1(1)[OF False _ j] have "length (str_nat (n div 10)) \<le> j" by simp
    with False k show ?thesis by (subst str_nat.simps) simp
  qed
qed

lemma hex_upper_length: "n < 16 ^ k \<Longrightarrow> 0 < k \<Longrightarrow> length (hex_upper n) \<le> k"
proof (induction n arbitrary: k rule: hex_upper.induct)
  case (1 n)
  show ?case
  proof (cases "n < 16")
    case True
    with 1(3) show ?thesis by (subst hex_upper.simps) simp
  next
    case False
    obtain j where k: "k = Suc j" using 1(3) by (cases k) auto
    from False 1(2) k have j: "0 < j" by (cases j) auto
    from 1(2) k have "n div 16 < 16 ^ j"
      by (simp add: less_mult_imp_div_less mult.commute)
    with 1(1)[OF False _ j] have "length (hex_upper (n div 16)) \<le> j" by simp
    with False k show ?thesis by (subst hex_upper.simps) simp
  qed
qed

lemma hex_upper_nonempty: "hex_upper n \<noteq> []"
  by (subst hex_upper.simps) simp

lemma str_nat_nonempty: "str_nat n \<noteq> []"
  by (subst str_nat.simps) simp


lemma zfill_length: "length s \<le> w \<Longrightarrow> length (zfill w s) = w"
  by (simp add: zfill_def)

lemma zero_is_digit: "is_dec_digit (CHR ''0'')" "is_hex_upper_digit (CHR ''0'')" "digit_value (CHR ''0'') = 0"
  by (simp_all add: is_dec_digit_def is_hex_upper_digit_def digit_value_def)

lemma zfill_dec_digits: "list_all is_dec_digit s \<Longrightarrow> list_all is_dec_digit (zfill w s)"
  by (auto simp: zfill_def list_all_iff zero_is_digit)

lemma zfill_hex_digits: "list_all is_hex_upper_digit s \<Longrightarrow> list_all is_hex_upper_digit (zfill w s)"
  by (auto simp: zfill_def list_all_iff zero_is_digit)

lemma base_value_append: "base_value b (xs @ ys) = foldl (\<lambda>a c. b * a + digit_value c) (base_value b xs) ys"
  by (simp add: base_value_def)

lemma base_value_zeros: "base_value b (replicate k (CHR ''0'')) = 0"
proof (induction k)
  case 0
  show ?case by (simp add: base_value_def)
next
  case (Suc k)
  have "replicate (Suc k) (CHR ''0'') = replicate k (CHR ''0'') @ [CHR ''0'']"
    by (simp add: replicate_append_same)
  then show ?case using Suc by (simp only: base_value_snoc zero_is_digit)
qed

lemma hex_value_zfill: "hex_value (zfill w s) = hex_value s"
  by (simp add: hex_value_def zfill_def base_value_append base_value_zeros) (simp add: base_value_def)

lemma dec_digit_not_minus: "is_dec_digit c \<Longrightarrow> c \<noteq> CHR ''-''"
  by (auto simp: is_dec_digit_def)

lemma fixed_point_body:
  assumes "ip \<noteq> []" "list_all is_dec_digit ip" "length fr = k" "list_all is_dec_digit fr"
  shows "fixed_point k (ip @ ''.'' @ fr)" and "fixed_point k (''-'' @ ip @ ''.'' @ fr)"
proof -
  from assms(1,2) have h: "hd ip \<noteq> CHR ''-''"
    by (cases ip) (auto dest: dec_digit_not_minus)
  have n: "length (ip @ ''.'' @ fr) - (k + 1) = length ip" "length (ip @ ''.'' @ fr) - k = Suc (length ip)"
    using assms(3) by simp_all
  have b: "let body = ip @ ''.'' @ fr; n = length body
      in k + 1 < n \<and> body ! (n - (k + 1)) = CHR ''.''
         \<and> list_all is_dec_digit (take (n - (k + 1)) body)
         \<and> list_all is_dec_digit (drop (n - k) body)"
    unfolding Let_def n using assms by (simp add: nth_append)
  from assms(1) h have "(if ip @ ''.'' @ fr \<noteq> [] \<and> hd (ip @ ''.'' @ fr) = CHR ''-'' then tl (ip @ ''.'' @ fr) else ip @ ''.'' @ fr) = ip @ ''.'' @ fr"
    by simp
  with b show "fixed_point k (ip @ ''.'' @ fr)"
    unfolding fixed_point_def by simp
  have "(if ''-'' @ ip @ ''.'' @ fr \<noteq> [] \<and> hd (''-'' @ ip @ ''.'' @ fr) = CHR ''-'' then tl (''-'' @ ip @ ''.'' @ fr) else ''-'' @ ip @ ''.'' @ fr) = ip @ ''.'' @ fr"
    by simp
  with b show "fixed_point k (''-'' @ ip @ ''.'' @ fr)"
    unfolding fixed_point_def by simp
qed

lemma str_nat_all_digits: "list_all is_dec_digit (str_nat n)"
  by (simp add: list_all_iff str_nat_digits)

lemma hex_upper_all_digits: "list_all is_hex_upper_digit (hex_upper n)"
  by (simp add: list_all_iff hex_upper_digits)

lemma format_6f_fixed_point: "fixed_point 6 (format_6f x)"
proof -
  let ?n = "micros x"
  let ?ip = "str_nat (?n div 10 ^ 6)"
  let ?fr = "zfill 6 (str_nat (?n mod 10 ^ 6))"
  have "?n mod 10 ^ 6 < 10 ^ 6" by simp
  then have "length (str_nat (?n mod 10 ^ 6)) \<le> 6" by (rule str_nat_length) simp
  then have l: "length ?fr = 6" by (rule zfill_length)
  have d: "list_all is_dec_digit ?fr" by (rule zfill_dec_digits) (rule str_nat_all_digits)
  note fp = fixed_point_body [OF str_nat_nonempty str_nat_all_digits l d, of "?n div 10 ^ 6"]
  show ?thesis
  proof (cases "negative x")
    case True
    then have "format_6f x = ''-'' @ ?ip @ ''.'' @ ?fr" by (simp add: format_6f_def Let_def)
    with fp(2) show ?thesis by simp
  next
    case False
    then have "format_6f x = ?ip @ ''.'' @ ?fr" by (simp add: format_6f_def Let_def)
    with fp(1) show ?thesis by simp
  qed
qed

lemma format_02X_two: "two_hex_digits (format_02X b)"
proof -
  have "unat b < 16 ^ 2" using unsigned_less [of b, where ?'a = nat] by simp
  then have "length (hex_upper (unat b)) \<le> 2" by (rule hex_upper_length) simp
  then have "length (format_02X b) = 2" unfolding format_02X_def by (rule zfill_length)
  moreover have "list_all is_hex_upper_digit (format_02X b)"
    unfolding format_02X_def by (rule zfill_hex_digits) (rule hex_upper_all_digits)
  ultimately show ?thesis by (simp add: two_hex_digits_def)
qed

lemma format_02X_value: "hex_value (format_02X b) = unat b"
  by (simp add: format_02X_def hex_value_zfill hex_value_hex_upper)

lemma hex_digit_not_space: "is_hex_upper_digit c \<Longrightarrow> c \<noteq> CHR '' ''"
  by (auto simp: is_hex_upper_digit_def)

lemma format_02X_no_space: "CHR '' '' \<notin> set (format_02X b)"
  using format_02X_two [of b] by (auto simp: two_hex_digits_def list_all_iff dest: hex_digit_not_space)

lemma format_02X_nonempty: "format_02X b \<noteq> []"
  using format_02X_two [of b] by (auto simp: two_hex_digits_def)

lemma split_sep_nonempty: "split_sep c s \<noteq> []"
  by (induction s) (auto split: list.splits)

lemma split_sep_none: "c \<notin> set x \<Longrightarrow> split_sep c x = [x]"
  by (induction x) (auto split: list.splits)

lemma split_sep_append: "c \<notin> set x \<Longrightarrow> split_sep c (x @ c # rest) = x # split_sep c rest"
  by (induction x) (auto split: list.splits)

lemma split_sep_join:
  "xs \<noteq> [] \<Longrightarrow> \<forall>x \<in> set xs. c \<notin> set x \<Longrightarrow> split_sep c (join [c] xs) = xs"
proof (induction "[c]" xs rule: join.induct)
  case 1
  then show ?case by simp
next
  case (2 x)
  then show ?case by (simp add: split_sep_none)
next
  case (3 x y ys)
  then show ?case by (simp add: split_sep_append)
qed

lemma join_nonempty: "xs \<noteq> [] \<Longrightarrow> \<forall>x \<in> set xs. x \<noteq> [] \<Longrightarrow> join sep xs \<noteq> []"
  by (induction sep xs rule: join.induct) auto

lemma groups_data_hex: "groups (data_hex m) = map format_02X (data m)"
proof (cases "data m = []")
  case True
  then show ?thesis by (simp add: data_hex_def groups_def)
next
  case False
  then have ne: "map format_02X (data m) \<noteq> []" by simp
  have "join '' '' (map format_02X (data m)) \<noteq> []"
    by (rule join_nonempty [OF ne]) (simp add: format_02X_nonempty)
  moreover have "split_sep (CHR '' '') (join '' '' (map format_02X (data m))) = map format_02X (data m)"
    by (rule split_sep_join [OF ne]) (simp add: format_02X_no_space)
  ultimately show ?thesis using False by (simp add: data_hex_def groups_def)
qed

text \<open>
  The printed timestamp read back: its digits are the rounded number of millionths, and that
  number is a nearest one to the value of the float, the even one at a tie.
\<close>

lemma dec_digit_value: "d < 10 \<Longrightarrow> digit_value (dec_digit d) = d"
proof -
  assume "d < 10"
  then have "d = 0 \<or> d = 1 \<or> d = 2 \<or> d = 3 \<or> d = 4 \<or> d = 5 \<or> d = 6 \<or> d = 7 \<or> d = 8
      \<or> d = 9" by arith
  then show ?thesis
    by (elim disjE) (simp_all add: dec_digit_def digit_value_def)
qed

lemma base_value_str_nat: "base_value 10 (str_nat n) = n"
proof (induction n rule: str_nat.induct)
  case (1 n)
  show ?case
  proof (cases "n < 10")
    case True
    then show ?thesis
      by (subst str_nat.simps) (simp add: base_value_def dec_digit_value)
  next
    case False
    with 1 show ?thesis
      by (subst str_nat.simps) (simp add: base_value_snoc dec_digit_value)
  qed
qed

lemma base_value_append_pow:
  "base_value b (xs @ ys) = base_value b xs * b ^ length ys + base_value b ys"
proof (induction ys rule: rev_induct)
  case Nil
  show ?case by (simp add: base_value_def)
next
  case (snoc y ys)
  have "base_value b (xs @ ys @ [y]) = b * base_value b (xs @ ys) + digit_value y"
    using base_value_snoc [of b "xs @ ys" y] by simp
  with snoc show ?case by (simp add: base_value_snoc algebra_simps)
qed

lemma base_value_zfill: "base_value b (zfill w s) = base_value b s"
  by (simp add: zfill_def base_value_append_pow base_value_zeros)

lemma dec_digit_not_point: "is_dec_digit c \<Longrightarrow> c \<noteq> CHR ''.''"
  by (auto simp: is_dec_digit_def)

lemma filter_point_digits:
  "list_all is_dec_digit s \<Longrightarrow> filter (\<lambda>c. c \<noteq> CHR ''.'') s = s"
  by (induction s) (auto dest: dec_digit_not_point)

lemma format_6f_read_back:
  "has_minus (format_6f x) = negative x" "unscaled_value (format_6f x) = micros x"
proof -
  let ?n = "micros x"
  let ?ip = "str_nat (?n div 10 ^ 6)"
  let ?fr = "zfill 6 (str_nat (?n mod 10 ^ 6))"
  have "?n mod 10 ^ 6 < 10 ^ 6" by simp
  then have "length (str_nat (?n mod 10 ^ 6)) \<le> 6" by (rule str_nat_length) simp
  then have l: "length ?fr = 6" by (rule zfill_length)
  have d: "list_all is_dec_digit ?fr" by (rule zfill_dec_digits) (rule str_nat_all_digits)
  have h: "hd ?ip \<noteq> CHR ''-''"
    using str_nat_nonempty [of "?n div 10 ^ 6"] str_nat_digits [of "hd ?ip" "?n div 10 ^ 6"]
    by (auto dest: dec_digit_not_minus)
  have f: "format_6f x = (if negative x then ''-'' else '''') @ ?ip @ ''.'' @ ?fr"
    by (simp add: format_6f_def Let_def)
  show m: "has_minus (format_6f x) = negative x"
    using h str_nat_nonempty [of "?n div 10 ^ 6"] by (simp add: f has_minus_def)
  have body: "(if has_minus (format_6f x) then tl (format_6f x) else format_6f x) = ?ip @ ''.'' @ ?fr"
    unfolding m by (simp add: f)
  have fi: "filter (\<lambda>c. c \<noteq> CHR ''.'') ?ip = ?ip"
    by (rule filter_point_digits [OF str_nat_all_digits])
  have ff: "filter (\<lambda>c. c \<noteq> CHR ''.'') ?fr = ?fr"
    by (rule filter_point_digits [OF d])
  have "filter (\<lambda>c. c \<noteq> CHR ''.'') (?ip @ ''.'' @ ?fr) = ?ip @ ?fr"
    unfolding filter_append fi ff by simp
  then have "unscaled_value (format_6f x) = base_value 10 (?ip @ ?fr)"
    unfolding unscaled_value_def body by simp
  also have "\<dots> = (?n div 10 ^ 6) * 10 ^ 6 + ?n mod 10 ^ 6"
    by (simp only: base_value_append_pow l base_value_zfill base_value_str_nat)
  also have "\<dots> = ?n" by simp
  finally show "unscaled_value (format_6f x) = micros x" .
qed

lemma round_half_even_nearest:
  assumes "0 < d"
  shows "2 * \<bar>int (round_half_even n d) * int d - int n\<bar> \<le> int d
    \<and> (2 * \<bar>int (round_half_even n d) * int d - int n\<bar> = int d \<longrightarrow> even (round_half_even n d))"
proof -
  define q where "q = n div d"
  define r where "r = n mod d"
  define v where "v = round_half_even n d"
  define Q where "Q = int q * int d"
  have n: "int n = Q + int r"
    unfolding Q_def q_def r_def by (metis div_mult_mod_eq of_nat_add of_nat_mult)
  have r: "r < d" unfolding r_def using assms by simp
  have goal: "2 * \<bar>int v * int d - int n\<bar> \<le> int d
    \<and> (2 * \<bar>int v * int d - int n\<bar> = int d \<longrightarrow> even v)"
  proof (cases "d < 2 * r \<or> (2 * r = d \<and> odd q)")
    case True
    then have v: "v = q + 1"
      by (simp add: v_def round_half_even_def Let_def q_def r_def)
    have "int (q + 1) * int d = Q + int d" unfolding Q_def by (simp add: algebra_simps)
    with n have "int v * int d - int n = int d - int r" unfolding v by linarith
    with r have e: "2 * \<bar>int v * int d - int n\<bar> = 2 * (int d - int r)" by simp
    from True show ?thesis
    proof
      assume "d < 2 * r"
      with r show ?thesis unfolding e by auto
    next
      assume "2 * r = d \<and> odd q"
      then show ?thesis unfolding e using v by auto
    qed
  next
    case False
    then have v: "v = q"
      by (simp add: v_def round_half_even_def Let_def q_def r_def)
    have "int v * int d - int n = - int r" using n unfolding Q_def v by simp
    then have e: "2 * \<bar>int v * int d - int n\<bar> = 2 * int r" by simp
    from False have "2 * r \<le> d" "2 * r = d \<longrightarrow> even q" by auto
    then show ?thesis unfolding e using v by auto
  qed
  then show ?thesis unfolding v_def .
qed

lemma micros_nearest: "nearest_micros x (micros x)"
proof (cases "0 \<le> exponent x")
  case True
  then show ?thesis by (simp add: nearest_micros_def micros_def Let_def algebra_simps)
next
  case False
  have "0 < (2::nat) ^ nat (- exponent x)" by simp
  from round_half_even_nearest [OF this, of "mantissa x * 10 ^ 6"] False
  show ?thesis by (simp add: nearest_micros_def micros_def Let_def)
qed

section \<open>Properties of the rows and of the loop\<close>

lemma writerow_row:
  "writerow fieldnames (row m) =
     [PyStr (format_6f (timestamp m)),
      (case channel m of Some v \<Rightarrow> v | None \<Rightarrow> PyStr ''N/A''),
      PyStr (''0x'' @ format_X (arbitration_id m)),
      PyStr (str_bool (is_extended_id m)),
      PyStr (str_bool (is_remote_frame m)),
      PyStr (str_bool (is_error_frame m)),
      PyInt (dlc m),
      PyStr (data_hex m)]"
  by (simp add: writerow_def fieldnames_def row_def)

lemma row_keys: "map fst (row m) = fieldnames"
  by (simp add: row_def fieldnames_def)

lemma column_row:
  "column ''timestamp'' (writerow fieldnames (row m)) = Some (PyStr (format_6f (timestamp m)))"
  "column ''channel'' (writerow fieldnames (row m)) =
     Some (case channel m of Some v \<Rightarrow> v | None \<Rightarrow> PyStr ''N/A'')"
  "column ''arbitration_id'' (writerow fieldnames (row m)) =
     Some (PyStr (''0x'' @ format_X (arbitration_id m)))"
  "column ''is_extended_id'' (writerow fieldnames (row m)) = Some (PyStr (str_bool (is_extended_id m)))"
  "column ''is_remote_frame'' (writerow fieldnames (row m)) = Some (PyStr (str_bool (is_remote_frame m)))"
  "column ''is_error_frame'' (writerow fieldnames (row m)) = Some (PyStr (str_bool (is_error_frame m)))"
  "column ''dlc'' (writerow fieldnames (row m)) = Some (PyInt (dlc m))"
  "column ''data'' (writerow fieldnames (row m)) = Some (PyStr (data_hex m))"
  unfolding writerow_row by (simp_all add: column_def fieldnames_def)

lemma for_loop_run:
  "for_loop inc xs s = (first_raise xs, foldl (\<lambda>s m. loop_body inc m s) s (yielded xs))"
  by (induction inc xs s rule: for_loop.induct) simp_all

lemma loop_body_rows:
  "csv_rows (loop_body inc m s) =
     csv_rows s @ (if written inc m then [writerow fieldnames (row m)] else [])"
  by (simp add: loop_body_def written_def Let_def)

lemma loop_body_error_count:
  "error_count (loop_body inc m s) = error_count s + (if written inc m then 0 else 1)"
  by (simp add: loop_body_def written_def Let_def)

lemma loop_body_message_count:
  "message_count (loop_body inc m s) = message_count s + (if written inc m then 1 else 0)"
  by (simp add: loop_body_def written_def Let_def)

lemma foldl_rows:
  "csv_rows (foldl (\<lambda>s m. loop_body inc m s) s ms) =
     csv_rows s @ map (\<lambda>m. writerow fieldnames (row m)) (filter (written inc) ms)"
  by (induction ms arbitrary: s) (simp_all add: loop_body_rows)

lemma foldl_error_count:
  "error_count (foldl (\<lambda>s m. loop_body inc m s) s ms) =
     error_count s + length (filter (\<lambda>m. \<not> written inc m) ms)"
  by (induction ms arbitrary: s) (simp_all add: loop_body_error_count)

lemma foldl_message_count:
  "message_count (foldl (\<lambda>s m. loop_body inc m s) s ms) =
     message_count s + length (filter (written inc) ms)"
  by (induction ms arbitrary: s) (simp_all add: loop_body_message_count)

lemma try_block_open_rb_fails:
  "open_rb w blf = Inl e \<Longrightarrow> try_block w blf csv inc = (Some e, w)"
  by (simp add: try_block_def)



lemma try_block_loop:
  assumes "open_rb w blf = Inr f" "header_error f = None" "open_w w csv = None"
  shows "fst (try_block w blf csv inc) = first_raise (objects f)"
    and "files (snd (try_block w blf csv inc)) =
           (files w)(csv \<mapsto> writeheader fieldnames #
              map (\<lambda>m. writerow fieldnames (row m)) (filter (written inc) (yielded (objects f))))"
  using assms
  by (simp_all add: try_block_def BLFReader_def for_loop_run foldl_rows Let_def split: option.splits)

section \<open>Properties of the conversion\<close>

lemma hex_digit_not_minus: "is_hex_upper_digit c \<Longrightarrow> c \<noteq> CHR ''-''"
  by (auto simp: is_hex_upper_digit_def)

lemma hd_hex_upper: "hd (hex_upper n) \<noteq> CHR ''-''"
  using hex_upper_nonempty [of n] hex_upper_digits [of "hd (hex_upper n)" n]
  by (auto dest: hex_digit_not_minus)

lemma hex_literal_format_X:
  "hex_literal (''0x'' @ format_X i)" "hex_literal_value (''0x'' @ format_X i) = i"
  by (simp_all add: hex_literal_def hex_literal_value_def format_X_def hex_upper_nonempty
        hex_upper_all_digits hd_hex_upper hex_value_hex_upper Let_def)

lemma convert_result:
  "convert_blf_to_csv w blf csv inc =
     (case fst (try_block w blf csv inc) of
        None \<Rightarrow> (True, snd (try_block w blf csv inc))
      | Some e \<Rightarrow> (False, print (report blf e) (snd (try_block w blf csv inc))))"
  by (simp add: convert_blf_to_csv_def split: prod.splits option.splits)

lemma files_print: "files (print s w) = files w"
  by (simp add: print_def)

lemma convert_files:
  "files (snd (convert_blf_to_csv w blf csv inc)) = files (snd (try_block w blf csv inc))"
  by (simp add: convert_result files_print split: option.splits)

lemma try_block_stdout:
  assumes "open_rb w blf = Inr f" "header_error f = None" "open_w w csv = None"
      "first_raise (objects f) = None"
  shows "stdout (snd (try_block w blf csv inc)) =
           printed (foldl (\<lambda>s m. loop_body inc m s)
              \<lparr>csv_rows = [writeheader fieldnames], message_count = 0, error_count = 0,
                printed = stdout w\<rparr> (yielded (objects f)))
           @ summary csv (foldl (\<lambda>s m. loop_body inc m s)
              \<lparr>csv_rows = [writeheader fieldnames], message_count = 0, error_count = 0,
                printed = stdout w\<rparr> (yielded (objects f)))"
  using assms
  by (simp add: try_block_def BLFReader_def for_loop_run Let_def)

lemma example_world_simps:
  "open_rb (example_world xs) ''in.blf'' = Inr \<lparr>header_error = None, objects = xs\<rparr>"
  "open_w (example_world xs) p = None"
  "files (example_world xs) = Map.empty"
  "stdout (example_world xs) = []"
  "path_exists (example_world xs) p = (p = ''in.blf'')"
  by (simp_all add: example_world_def)

section \<open>Error frames\<close>

text \<open>
  C1. A message whose error-frame flag is set: with the option off, the loop body writes no row
  and adds exactly one to the count of skipped error frames; with the option on, it writes
  exactly one row and leaves the count. Over any reader, the rows with the option off are
  those of the messages that are no error frames, and the count is the number of error
  frames; with the option on every message has its row. A file of one error frame gives the
  header alone and the printed line \<^verbatim>\<open>Error frames skipped: 1\<close> with the option off, and the
  header and one row with the option on.
\<close>


theorem C1_error_frames:
  "(is_error_frame m \<longrightarrow>
      loop_body False m s = s\<lparr>error_count := error_count s + 1\<rparr>
      \<and> csv_rows (loop_body True m s) = csv_rows s @ [writerow fieldnames (row m)]
      \<and> error_count (loop_body True m s) = error_count s)
   \<and> csv_rows (snd (for_loop False xs s)) =
       csv_rows s @ map (\<lambda>m. writerow fieldnames (row m))
                      (filter (\<lambda>m. \<not> is_error_frame m) (yielded xs))
   \<and> error_count (snd (for_loop False xs s)) =
       error_count s + length (filter is_error_frame (yielded xs))
   \<and> csv_rows (snd (for_loop True xs s)) =
       csv_rows s @ map (\<lambda>m. writerow fieldnames (row m)) (yielded xs)
   \<and> error_count (snd (for_loop True xs s)) = error_count s
   \<and> (open_rb w blf = Inr f \<and> header_error f = None \<and> objects f = [Yield m]
        \<and> is_error_frame m \<and> open_w w csv = None \<longrightarrow>
        fst (convert_blf_to_csv w blf csv False)
        \<and> files (snd (convert_blf_to_csv w blf csv False)) csv = Some [writeheader fieldnames]
        \<and> stdout (snd (convert_blf_to_csv w blf csv False)) =
            stdout w @ [CHR 0x0A # ''Conversion completed successfully!'',
                        ''Messages processed: 0'', ''Error frames skipped: 1'',
                        ''Output file: '' @ csv]
        \<and> fst (convert_blf_to_csv w blf csv True)
        \<and> files (snd (convert_blf_to_csv w blf csv True)) csv =
            Some [writeheader fieldnames, writerow fieldnames (row m)])"
proof -
  have step: "is_error_frame m \<longrightarrow>
      loop_body False m s = s\<lparr>error_count := error_count s + 1\<rparr>
      \<and> csv_rows (loop_body True m s) = csv_rows s @ [writerow fieldnames (row m)]
      \<and> error_count (loop_body True m s) = error_count s"
    by (simp add: loop_body_def Let_def)
  have w: "written False = (\<lambda>m. \<not> is_error_frame m)" "written True = (\<lambda>m. True)"
    by (simp_all add: written_def fun_eq_iff)
  have rows_off: "csv_rows (snd (for_loop False xs s)) =
       csv_rows s @ map (\<lambda>m. writerow fieldnames (row m))
                      (filter (\<lambda>m. \<not> is_error_frame m) (yielded xs))"
    by (simp add: for_loop_run foldl_rows w)
  have count_off: "error_count (snd (for_loop False xs s)) =
       error_count s + length (filter is_error_frame (yielded xs))"
    by (simp add: for_loop_run foldl_error_count w)
  have rows_on: "csv_rows (snd (for_loop True xs s)) =
       csv_rows s @ map (\<lambda>m. writerow fieldnames (row m)) (yielded xs)"
    by (simp add: for_loop_run foldl_rows w)
  have count_on: "error_count (snd (for_loop True xs s)) = error_count s"
    by (simp add: for_loop_run foldl_error_count w)
  have e2e: "open_rb w blf = Inr f \<and> header_error f = None \<and> objects f = [Yield m]
        \<and> is_error_frame m \<and> open_w w csv = None \<longrightarrow>
        fst (convert_blf_to_csv w blf csv False)
        \<and> files (snd (convert_blf_to_csv w blf csv False)) csv = Some [writeheader fieldnames]
        \<and> stdout (snd (convert_blf_to_csv w blf csv False)) =
            stdout w @ [CHR 0x0A # ''Conversion completed successfully!'',
                        ''Messages processed: 0'', ''Error frames skipped: 1'',
                        ''Output file: '' @ csv]
        \<and> fst (convert_blf_to_csv w blf csv True)
        \<and> files (snd (convert_blf_to_csv w blf csv True)) csv =
            Some [writeheader fieldnames, writerow fieldnames (row m)]"
  proof (intro impI, elim conjE)
    assume a: "open_rb w blf = Inr f" "header_error f = None" "open_w w csv = None"
      and o: "objects f = [Yield m]" and e: "is_error_frame m"
    from o have fr: "first_raise (objects f) = None" by simp
    have r: "fst (convert_blf_to_csv w blf csv inc)" for inc
      by (simp add: convert_result try_block_loop(1) [OF a] fr)
    have f1: "files (snd (convert_blf_to_csv w blf csv False)) csv = Some [writeheader fieldnames]"
      by (simp add: convert_files try_block_loop(2) [OF a] o written_def e)
    have f2: "files (snd (convert_blf_to_csv w blf csv True)) csv =
            Some [writeheader fieldnames, writerow fieldnames (row m)]"
      by (simp add: convert_files try_block_loop(2) [OF a] o written_def e)
    have "snd (convert_blf_to_csv w blf csv False) = snd (try_block w blf csv False)"
      by (simp add: convert_result try_block_loop(1) [OF a] fr)
    then have s1: "stdout (snd (convert_blf_to_csv w blf csv False)) =
            stdout w @ [CHR 0x0A # ''Conversion completed successfully!'',
                        ''Messages processed: 0'', ''Error frames skipped: 1'',
                        ''Output file: '' @ csv]"
      by (simp add: try_block_stdout [OF a fr] o loop_body_def e summary_def str_nat_eval dec_digit_def)
    from r f1 f2 s1 show "fst (convert_blf_to_csv w blf csv False)
        \<and> files (snd (convert_blf_to_csv w blf csv False)) csv = Some [writeheader fieldnames]
        \<and> stdout (snd (convert_blf_to_csv w blf csv False)) =
            stdout w @ [CHR 0x0A # ''Conversion completed successfully!'',
                        ''Messages processed: 0'', ''Error frames skipped: 1'',
                        ''Output file: '' @ csv]
        \<and> fst (convert_blf_to_csv w blf csv True)
        \<and> files (snd (convert_blf_to_csv w blf csv True)) csv =
            Some [writeheader fieldnames, writerow fieldnames (row m)]"
      by simp
  qed
  from step rows_off count_off rows_on count_on e2e show ?thesis by blast
qed

theorem C1_error_frames_witness:
  "is_error_frame example_error_frame
   \<and> error_count (loop_body False example_error_frame
        \<lparr>csv_rows = [], message_count = 0, error_count = 0, printed = []\<rparr>) = 1
   \<and> csv_rows (loop_body False example_error_frame
        \<lparr>csv_rows = [], message_count = 0, error_count = 0, printed = []\<rparr>) = []
   \<and> files (snd (convert_blf_to_csv (example_world [Yield example_error_frame])
        ''in.blf'' ''out.csv'' False)) ''out.csv'' = Some [writeheader fieldnames]
   \<and> files (snd (convert_blf_to_csv (example_world [Yield example_error_frame])
        ''in.blf'' ''out.csv'' True)) ''out.csv'' =
        Some [writeheader fieldnames, writerow fieldnames (row example_error_frame)]"
  using C1_error_frames [of example_error_frame
      "\<lparr>csv_rows = [], message_count = 0, error_count = 0, printed = []\<rparr>"
      "[Yield example_error_frame]" "example_world [Yield example_error_frame]" "''in.blf''"
      "\<lparr>header_error = None, objects = [Yield example_error_frame]\<rparr>" "''out.csv''"]
  by (simp add: example_world_simps example_error_frame_def)

section \<open>Rows\<close>

text \<open>
  C2. A reader that yields exactly one standard CAN message with arbitration ID \<open>0x123\<close>, DLC 4
  and data bytes 01 02 03 04: the conversion succeeds and the file holds the header and
  exactly one row, whose \<^verbatim>\<open>arbitration_id\<close> is the string \<^verbatim>\<open>0x123\<close>, whose
  \<^verbatim>\<open>is_extended_id\<close> is the string \<^verbatim>\<open>False\<close>, whose \<^verbatim>\<open>dlc\<close> is 4 and whose \<^verbatim>\<open>data\<close> is
  the string \<^verbatim>\<open>01 02 03 04\<close>, whatever the timestamp, the channel and the option are.
\<close>

theorem C2_standard_message:
  assumes "open_rb w blf = Inr f" and "header_error f = None" and "open_w w csv = None"
    and "objects f = [Yield m]"
    and "arbitration_id m = 0x123" and "\<not> is_extended_id m" and "\<not> is_error_frame m"
    and "dlc m = 4" and "data m = [0x01, 0x02, 0x03, 0x04]"
  shows "fst (convert_blf_to_csv w blf csv inc)
    \<and> files (snd (convert_blf_to_csv w blf csv inc)) csv =
        Some [writeheader fieldnames, writerow fieldnames (row m)]
    \<and> column ''arbitration_id'' (writerow fieldnames (row m)) = Some (PyStr ''0x123'')
    \<and> column ''is_extended_id'' (writerow fieldnames (row m)) = Some (PyStr ''False'')
    \<and> column ''dlc'' (writerow fieldnames (row m)) = Some (PyInt 4)
    \<and> column ''data'' (writerow fieldnames (row m)) = Some (PyStr ''01 02 03 04'')"
proof -
  from assms(4) have fr: "first_raise (objects f) = None" by simp
  have r: "fst (convert_blf_to_csv w blf csv inc)"
    by (simp add: convert_result try_block_loop(1) [OF assms(1-3)] fr)
  have fl: "files (snd (convert_blf_to_csv w blf csv inc)) csv =
        Some [writeheader fieldnames, writerow fieldnames (row m)]"
    by (simp add: convert_files try_block_loop(2) [OF assms(1-3)] assms(4,7) written_def)
  have "format_X (arbitration_id m) = ''123''"
    by (simp add: assms(5) format_X_def hex_upper_eval hex_digit_def)
  then have a: "column ''arbitration_id'' (writerow fieldnames (row m)) = Some (PyStr ''0x123'')"
    by (simp add: column_row)
  have e: "column ''is_extended_id'' (writerow fieldnames (row m)) = Some (PyStr ''False'')"
    by (simp add: column_row assms(6) str_bool_def)
  have "data_hex m = ''01 02 03 04''"
    by (simp add: data_hex_def assms(9) format_02X_def zfill_def hex_upper_eval hex_digit_def)
  then have d: "column ''data'' (writerow fieldnames (row m)) = Some (PyStr ''01 02 03 04'')"
    by (simp add: column_row)
  have l: "column ''dlc'' (writerow fieldnames (row m)) = Some (PyInt 4)"
    by (simp add: column_row assms(8))
  from r fl a e l d show ?thesis by simp
qed

theorem C2_standard_message_witness:
  "open_rb (example_world [Yield example_can_msg]) ''in.blf'' =
       Inr \<lparr>header_error = None, objects = [Yield example_can_msg]\<rparr>
   \<and> arbitration_id example_can_msg = 0x123 \<and> dlc example_can_msg = 4
   \<and> data example_can_msg = [0x01, 0x02, 0x03, 0x04]
   \<and> files (snd (convert_blf_to_csv (example_world [Yield example_can_msg])
        ''in.blf'' ''out.csv'' False)) ''out.csv'' =
        Some [writeheader fieldnames, writerow fieldnames (row example_can_msg)]
   \<and> column ''arbitration_id'' (writerow fieldnames (row example_can_msg)) = Some (PyStr ''0x123'')
   \<and> column ''is_extended_id'' (writerow fieldnames (row example_can_msg)) = Some (PyStr ''False'')
   \<and> column ''data'' (writerow fieldnames (row example_can_msg)) = Some (PyStr ''01 02 03 04'')"
  using C2_standard_message [of "example_world [Yield example_can_msg]" "''in.blf''"
      "\<lparr>header_error = None, objects = [Yield example_can_msg]\<rparr>" "''out.csv''"
      example_can_msg False]
  by (simp add: example_world_simps example_can_msg_def)

text \<open>
  C3. Every written row has a timestamp with exactly six decimal places that is the value of
  the message's timestamp rounded to a nearest millionth (to the even one at a tie) with the
  sign of the timestamp, an arbitration ID
  that is a \<^verbatim>\<open>0x\<close> literal in upper-case hexadecimal denoting the ID of the message, and a
  data field whose space-separated groups are two upper-case hexadecimal digits each and
  denote the data bytes in order. Whenever the CSV file has been opened, its first line is
  the header \<^verbatim>\<open>timestamp, channel, arbitration_id, is_extended_id, is_remote_frame,
  is_error_frame, dlc, data\<close>, and every further line is the row of a message of the reader.
\<close>

theorem C3_row_format:
  "(\<exists>t a d.
      column ''timestamp'' (writerow fieldnames (row m)) = Some (PyStr t) \<and> fixed_point 6 t
      \<and> has_minus t = negative (timestamp m)
      \<and> nearest_micros (timestamp m) (unscaled_value t)
      \<and> column ''arbitration_id'' (writerow fieldnames (row m)) = Some (PyStr a)
      \<and> hex_literal a \<and> hex_literal_value a = arbitration_id m
      \<and> column ''data'' (writerow fieldnames (row m)) = Some (PyStr d)
      \<and> list_all two_hex_digits (groups d) \<and> map hex_value (groups d) = map unat (data m)
      \<and> d = join '' '' (groups d))
   \<and> (open_rb w blf = Inr f \<and> header_error f = None \<and> open_w w csv = None \<longrightarrow>
        (\<exists>lines. files (snd (convert_blf_to_csv w blf csv inc)) csv =
             Some (map PyStr [''timestamp'', ''channel'', ''arbitration_id'', ''is_extended_id'',
                     ''is_remote_frame'', ''is_error_frame'', ''dlc'', ''data''] # lines)
           \<and> (\<forall>l \<in> set lines. \<exists>m \<in> set (yielded (objects f)). l = writerow fieldnames (row m))))"
proof -
  have g: "groups (data_hex m) = map format_02X (data m)" by (rule groups_data_hex)
  have d1: "list_all two_hex_digits (groups (data_hex m))"
    by (simp add: g list_all_iff format_02X_two)
  have d2: "map hex_value (groups (data_hex m)) = map unat (data m)"
    by (simp add: g format_02X_value)
  have d3: "data_hex m = join '' '' (groups (data_hex m))"
  proof (cases "data m = []")
    case True
    then show ?thesis by (simp add: data_hex_def groups_def)
  next
    case False
    have "join '' '' (groups (data_hex m)) = join '' '' (map format_02X (data m))"
      by (simp only: g)
    with False show ?thesis by (simp add: data_hex_def)
  qed
  have rw: "\<exists>t a d.
      column ''timestamp'' (writerow fieldnames (row m)) = Some (PyStr t) \<and> fixed_point 6 t
      \<and> has_minus t = negative (timestamp m)
      \<and> nearest_micros (timestamp m) (unscaled_value t)
      \<and> column ''arbitration_id'' (writerow fieldnames (row m)) = Some (PyStr a)
      \<and> hex_literal a \<and> hex_literal_value a = arbitration_id m
      \<and> column ''data'' (writerow fieldnames (row m)) = Some (PyStr d)
      \<and> list_all two_hex_digits (groups d) \<and> map hex_value (groups d) = map unat (data m)
      \<and> d = join '' '' (groups d)"
    using format_6f_fixed_point [of "timestamp m"] hex_literal_format_X [of "arbitration_id m"]
      format_6f_read_back [of "timestamp m"] micros_nearest [of "timestamp m"] d1 d2 d3
    by (intro exI [of _ "format_6f (timestamp m)"]
          exI [of _ "''0x'' @ format_X (arbitration_id m)"] exI [of _ "data_hex m"])
       (simp add: column_row)
  have hdr: "open_rb w blf = Inr f \<and> header_error f = None \<and> open_w w csv = None \<longrightarrow>
        (\<exists>lines. files (snd (convert_blf_to_csv w blf csv inc)) csv =
             Some (map PyStr [''timestamp'', ''channel'', ''arbitration_id'', ''is_extended_id'',
                     ''is_remote_frame'', ''is_error_frame'', ''dlc'', ''data''] # lines)
           \<and> (\<forall>l \<in> set lines. \<exists>m \<in> set (yielded (objects f)). l = writerow fieldnames (row m)))"
  proof (intro impI, elim conjE)
    assume a: "open_rb w blf = Inr f" "header_error f = None" "open_w w csv = None"
    let ?lines = "map (\<lambda>m. writerow fieldnames (row m)) (filter (written inc) (yielded (objects f)))"
    have "files (snd (convert_blf_to_csv w blf csv inc)) csv =
             Some (map PyStr [''timestamp'', ''channel'', ''arbitration_id'', ''is_extended_id'',
                     ''is_remote_frame'', ''is_error_frame'', ''dlc'', ''data''] # ?lines)"
      by (simp add: convert_files try_block_loop(2) [OF a] writeheader_def fieldnames_def)
    moreover have "\<forall>l \<in> set ?lines. \<exists>m \<in> set (yielded (objects f)). l = writerow fieldnames (row m)"
      by auto
    ultimately show "\<exists>lines. files (snd (convert_blf_to_csv w blf csv inc)) csv =
             Some (map PyStr [''timestamp'', ''channel'', ''arbitration_id'', ''is_extended_id'',
                     ''is_remote_frame'', ''is_error_frame'', ''dlc'', ''data''] # lines)
           \<and> (\<forall>l \<in> set lines. \<exists>m \<in> set (yielded (objects f)). l = writerow fieldnames (row m))"
      by blast
  qed
  from rw hdr show ?thesis by blast
qed

lemma example_can_msg_row:
  "writerow fieldnames (row example_can_msg) =
     [PyStr ''1.500000'', PyInt 0, PyStr ''0x123'', PyStr ''False'', PyStr ''False'',
      PyStr ''False'', PyInt 4, PyStr ''01 02 03 04'']"
proof -
  have "micros (timestamp example_can_msg) = 1500000"
    by (simp add: example_can_msg_def micros_def round_half_even_def)
  then have "format_6f (timestamp example_can_msg) = ''1.500000''"
    by (simp add: format_6f_def Let_def zfill_def str_nat_eval dec_digit_def example_can_msg_def)
  moreover have "format_X (arbitration_id example_can_msg) = ''123''"
    by (simp add: example_can_msg_def format_X_def hex_upper_eval hex_digit_def)
  moreover have "data_hex example_can_msg = ''01 02 03 04''"
    by (simp add: data_hex_def example_can_msg_def format_02X_def zfill_def hex_upper_eval hex_digit_def)
  ultimately show ?thesis
    by (simp add: writerow_row) (simp add: example_can_msg_def str_bool_def)
qed

theorem C3_row_format_witness:
  "open_rb (example_world [Yield example_can_msg]) ''in.blf'' =
       Inr \<lparr>header_error = None, objects = [Yield example_can_msg]\<rparr>
   \<and> column ''timestamp'' (writerow fieldnames (row example_can_msg)) = Some (PyStr ''1.500000'')
   \<and> fixed_point 6 ''1.500000''
   \<and> unscaled_value ''1.500000'' = 1500000
   \<and> nearest_micros (timestamp example_can_msg) 1500000
   \<and> (\<exists>lines. files (snd (convert_blf_to_csv (example_world [Yield example_can_msg])
          ''in.blf'' ''out.csv'' False)) ''out.csv'' =
             Some (map PyStr [''timestamp'', ''channel'', ''arbitration_id'', ''is_extended_id'',
                     ''is_remote_frame'', ''is_error_frame'', ''dlc'', ''data''] # lines))"
proof -
  have c: "column ''timestamp'' (writerow fieldnames (row example_can_msg)) = Some (PyStr ''1.500000'')"
    unfolding example_can_msg_row by (simp add: column_def fieldnames_def)
  note t = C3_row_format [of example_can_msg "example_world [Yield example_can_msg]" "''in.blf''"
      "\<lparr>header_error = None, objects = [Yield example_can_msg]\<rparr>" "''out.csv''" False]
  from t c have fp: "fixed_point 6 ''1.500000''" by auto
  have u: "unscaled_value ''1.500000'' = 1500000"
    by (simp add: unscaled_value_def has_minus_def base_value_def digit_value_def)
  from t c have "nearest_micros (timestamp example_can_msg) (unscaled_value ''1.500000'')" by auto
  then have nm: "nearest_micros (timestamp example_can_msg) 1500000" by (simp only: u)
  from t have "\<exists>lines. files (snd (convert_blf_to_csv (example_world [Yield example_can_msg])
          ''in.blf'' ''out.csv'' False)) ''out.csv'' =
             Some (map PyStr [''timestamp'', ''channel'', ''arbitration_id'', ''is_extended_id'',
                     ''is_remote_frame'', ''is_error_frame'', ''dlc'', ''data''] # lines)"
    by (simp add: example_world_simps) blast
  with c fp u nm show ?thesis by (simp add: example_world_simps)
qed

text \<open>
  C10. The channel column of the row of a message is the literal string \<^verbatim>\<open>N/A\<close> when the
  message object has no \<^verbatim>\<open>channel\<close> attribute, and the value of the attribute, unchanged,
  when it has one.
\<close>

theorem C10_channel_column:
  "(channel m = None \<longrightarrow>
      column ''channel'' (writerow fieldnames (row m)) = Some (PyStr ''N/A''))
   \<and> (\<forall>v. channel m = Some v \<longrightarrow> column ''channel'' (writerow fieldnames (row m)) = Some v)"
  by (simp add: column_row)

theorem C10_channel_column_witness:
  "channel example_error_frame = None
   \<and> column ''channel'' (writerow fieldnames (row example_error_frame)) = Some (PyStr ''N/A'')
   \<and> channel example_can_msg = Some (PyInt 0)
   \<and> column ''channel'' (writerow fieldnames (row example_can_msg)) = Some (PyInt 0)"
  using C10_channel_column [of example_error_frame] C10_channel_column [of example_can_msg]
  by (simp add: example_error_frame_def example_can_msg_def)



lemma convert_ok:
  assumes "open_rb w blf = Inr f" "header_error f = None" "open_w w csv = None"
  shows "fst (convert_blf_to_csv w blf csv inc) = (first_raise (objects f) = None)"
    and "files (snd (convert_blf_to_csv w blf csv inc)) =
           (files w)(csv \<mapsto> writeheader fieldnames #
              map (\<lambda>m. writerow fieldnames (row m)) (filter (written inc) (yielded (objects f))))"
proof -
  show "fst (convert_blf_to_csv w blf csv inc) = (first_raise (objects f) = None)"
    using try_block_loop(1) [OF assms, of inc] by (simp add: convert_result split: option.splits)
  show "files (snd (convert_blf_to_csv w blf csv inc)) =
           (files w)(csv \<mapsto> writeheader fieldnames #
              map (\<lambda>m. writerow fieldnames (row m)) (filter (written inc) (yielded (objects f))))"
    by (simp add: convert_files try_block_loop(2) [OF assms])
qed


lemma line_consistent_row:
  "line_dlc_consistent (writerow fieldnames (row m)) = dlc_consistent m"
  by (simp add: line_dlc_consistent_def dlc_consistent_def column_row groups_data_hex)

section \<open>Invariants of the specification that the script does not check\<close>

text \<open>
  C4, as stated, fails: the reader yields a message with DLC 4 and no data bytes; the
  conversion succeeds and writes its row, with \<^verbatim>\<open>dlc\<close> 4 and an empty \<^verbatim>\<open>data\<close> field.
\<close>

theorem C4_counterexample:
  "fst (convert_blf_to_csv (example_world [Yield short_data_msg]) ''in.blf'' ''out.csv'' False)
   \<and> files (snd (convert_blf_to_csv (example_world [Yield short_data_msg])
        ''in.blf'' ''out.csv'' False)) ''out.csv'' =
        Some [writeheader fieldnames, writerow fieldnames (row short_data_msg)]
   \<and> column ''dlc'' (writerow fieldnames (row short_data_msg)) = Some (PyInt 4)
   \<and> column ''data'' (writerow fieldnames (row short_data_msg)) = Some (PyStr '''')
   \<and> \<not> dlc_consistent short_data_msg
   \<and> \<not> line_dlc_consistent (writerow fieldnames (row short_data_msg))"
proof -
  have a: "open_rb (example_world [Yield short_data_msg]) ''in.blf'' =
      Inr \<lparr>header_error = None, objects = [Yield short_data_msg]\<rparr>"
    "header_error \<lparr>header_error = None, objects = [Yield short_data_msg]\<rparr> = None"
    "open_w (example_world [Yield short_data_msg]) ''out.csv'' = None"
    by (simp_all add: example_world_simps)
  have w: "written False short_data_msg"
    by (simp add: written_def short_data_msg_def example_can_msg_def)
  have c: "\<not> dlc_consistent short_data_msg"
    by (simp add: dlc_consistent_def dlc_to_byte_length_def short_data_msg_def example_can_msg_def)
  have d: "data_hex short_data_msg = ''''" "dlc short_data_msg = 4"
    by (simp_all add: data_hex_def short_data_msg_def example_can_msg_def)
  show ?thesis
    using c by (simp add: convert_ok [OF a] w example_world_simps column_row d line_consistent_row)
qed

text \<open>
  C4, amended. The script does not compare the data length with the DLC. Every row carries the
  DLC of its message unchanged and one two-digit group for each data byte, so a written row is
  consistent in DLC and data length exactly when the message the reader delivered is; and
  every message that is not a skipped error frame is written, consistent or not.
\<close>

theorem C4_dlc_passed_through:
  "column ''dlc'' (writerow fieldnames (row m)) = Some (PyInt (dlc m))
   \<and> (\<exists>d. column ''data'' (writerow fieldnames (row m)) = Some (PyStr d)
          \<and> length (groups d) = length (data m))
   \<and> line_dlc_consistent (writerow fieldnames (row m)) = dlc_consistent m
   \<and> (open_rb w blf = Inr f \<and> header_error f = None \<and> open_w w csv = None \<longrightarrow>
        files (snd (convert_blf_to_csv w blf csv inc)) csv =
          Some (writeheader fieldnames #
                map (\<lambda>m. writerow fieldnames (row m)) (filter (written inc) (yielded (objects f)))))"
proof -
  have "open_rb w blf = Inr f \<and> header_error f = None \<and> open_w w csv = None \<longrightarrow>
        files (snd (convert_blf_to_csv w blf csv inc)) csv =
          Some (writeheader fieldnames #
                map (\<lambda>m. writerow fieldnames (row m)) (filter (written inc) (yielded (objects f))))"
    by (auto simp: convert_ok(2))
  then show ?thesis
    by (simp add: column_row groups_data_hex line_consistent_row)
qed

theorem C4_dlc_passed_through_witness:
  "open_rb (example_world [Yield example_can_msg]) ''in.blf'' =
       Inr \<lparr>header_error = None, objects = [Yield example_can_msg]\<rparr>
   \<and> column ''dlc'' (writerow fieldnames (row example_can_msg)) = Some (PyInt 4)
   \<and> dlc_consistent example_can_msg
   \<and> line_dlc_consistent (writerow fieldnames (row example_can_msg))
   \<and> files (snd (convert_blf_to_csv (example_world [Yield example_can_msg])
        ''in.blf'' ''out.csv'' False)) ''out.csv'' =
        Some [writeheader fieldnames, writerow fieldnames (row example_can_msg)]"
proof -
  have c: "dlc_consistent example_can_msg"
    by (simp add: dlc_consistent_def dlc_to_byte_length_def example_can_msg_def)
  have w: "written False example_can_msg" "dlc example_can_msg = 4"
    by (simp_all add: written_def example_can_msg_def)
  show ?thesis
    using C4_dlc_passed_through [of example_can_msg "example_world [Yield example_can_msg]"
        "''in.blf''" "\<lparr>header_error = None, objects = [Yield example_can_msg]\<rparr>" "''out.csv''" False]
    by (simp add: example_world_simps c w)
qed




section \<open>Errors\<close>






lemma rfind_none: "c \<notin> set xs \<Longrightarrow> rfind c xs = None"
  by (induction xs) auto

lemma rfind_last: "c \<notin> set ys \<Longrightarrow> rfind c (xs @ c # ys) = Some (length xs)"
  by (induction xs) (auto simp: rfind_none)

lemma path_suffix_ext:
  "stem \<noteq> [] \<Longrightarrow> ext \<noteq> [] \<Longrightarrow> CHR ''.'' \<notin> set ext \<Longrightarrow>
   path_suffix (stem @ ''.'' @ ext) = ''.'' @ ext"
  by (simp add: path_suffix_def rfind_last)

lemma path_suffix_none: "CHR ''.'' \<notin> set name \<Longrightarrow> path_suffix name = ''''"
  by (simp add: path_suffix_def rfind_none)

lemma with_suffix_ext:
  assumes "parts p = ds @ [stem @ ''.'' @ ext]" "stem \<noteq> []" "ext \<noteq> []" "CHR ''.'' \<notin> set ext"
  shows "with_suffix p ''.csv'' = Inr (p\<lparr>parts := ds @ [stem @ ''.csv'']\<rparr>)"
proof -
  have n: "path_name p = stem @ ''.'' @ ext" using assms(1) by (simp add: path_name_def)
  have s: "path_suffix (stem @ ''.'' @ ext) = ''.'' @ ext"
    by (rule path_suffix_ext [OF assms(2-4)])
  show ?thesis
    unfolding with_suffix_def n Let_def s using assms(1,2) by simp
qed

lemma with_suffix_plain:
  assumes "parts p = ds @ [name]" "name \<noteq> []" "CHR ''.'' \<notin> set name"
  shows "with_suffix p ''.csv'' = Inr (p\<lparr>parts := ds @ [name @ ''.csv'']\<rparr>)"
proof -
  have n: "path_name p = name" using assms(1) by (simp add: path_name_def)
  show ?thesis
    unfolding with_suffix_def n Let_def path_suffix_none [OF assms(3)] using assms(1,2) by simp
qed

lemma print_fields:
  "open_rb (print s w) = open_rb w" "open_w (print s w) = open_w w"
  "path_exists (print s w) = path_exists w" "stdout (print s w) = stdout w @ [s]"
  by (simp_all add: print_def)

lemma main_missing:
  "\<not> path_exists w (str_path (Path (input_file a))) \<Longrightarrow>
   main w a = (Inr 1, print (''Error: Input file '' @ quoted (input_file a) @ '' does not exist.'') w)"
  by (simp add: main_def Let_def)

lemma main_convert:
  "path_exists w (str_path (Path (input_file a))) \<Longrightarrow>
   determine_output_path a (Path (input_file a)) = Inr out \<Longrightarrow>
   main w a =
     (Inr (if fst (convert_blf_to_csv
              (print (replicate 50 (CHR ''-''))
                (print (''Include error frames: '' @ str_bool (include_errors a))
                  (print (''Output CSV file: '' @ str_path out)
                    (print (''Converting BLF file: '' @ str_path (Path (input_file a))) w))))
              (str_path (Path (input_file a))) (str_path out) (include_errors a)) then 0 else 1),
      snd (convert_blf_to_csv
              (print (replicate 50 (CHR ''-''))
                (print (''Include error frames: '' @ str_bool (include_errors a))
                  (print (''Output CSV file: '' @ str_path out)
                    (print (''Converting BLF file: '' @ str_path (Path (input_file a))) w))))
              (str_path (Path (input_file a))) (str_path out) (include_errors a)))"
  by (simp add: main_def Let_def split: prod.splits)

lemma sublist_quoted: "sublist s (a @ quoted s @ b)"
proof -
  have "a @ quoted s @ b = (a @ [CHR 0x27]) @ s @ ([CHR 0x27] @ b)" by (simp add: quoted_def)
  then show ?thesis unfolding sublist_def by blast
qed

section \<open>The command line\<close>

text \<open>
  C7. When the input-file argument names a path that does not exist, \<^verbatim>\<open>main\<close> prints
  \<^verbatim>\<open>Error: Input file '<argument>' does not exist.\<close>, which names the file, returns the exit
  status 1, and writes no file. When the file disappears between the test and the
  conversion, so that opening it raises \<^verbatim>\<open>FileNotFoundError\<close>, the conversion prints
  \<^verbatim>\<open>Error: BLF file '<path>' not found.\<close>, writes no file, and \<^verbatim>\<open>main\<close> returns 1.
\<close>

theorem C7_missing_input:
  "(\<not> path_exists w (str_path (Path (input_file a))) \<longrightarrow>
      fst (main w a) = Inr 1
      \<and> files (snd (main w a)) = files w
      \<and> stdout (snd (main w a)) =
          stdout w @ [''Error: Input file '' @ quoted (input_file a) @ '' does not exist.'']
      \<and> sublist (input_file a) (last (stdout (snd (main w a)))))
   \<and> (open_rb w blf = Inl e \<and> exn_class e = FileNotFoundError \<longrightarrow>
        \<not> fst (convert_blf_to_csv w blf csv inc)
        \<and> files (snd (convert_blf_to_csv w blf csv inc)) = files w
        \<and> stdout (snd (convert_blf_to_csv w blf csv inc)) =
            stdout w @ [''Error: BLF file '' @ quoted blf @ '' not found.'']
        \<and> sublist blf (last (stdout (snd (convert_blf_to_csv w blf csv inc)))))
   \<and> (path_exists w (str_path (Path (input_file a)))
        \<and> determine_output_path a (Path (input_file a)) = Inr out
        \<and> open_rb w (str_path (Path (input_file a))) = Inl e \<longrightarrow>
        fst (main w a) = Inr 1 \<and> files (snd (main w a)) = files w)"
proof -
  have 1: "\<not> path_exists w (str_path (Path (input_file a))) \<longrightarrow>
      fst (main w a) = Inr 1
      \<and> files (snd (main w a)) = files w
      \<and> stdout (snd (main w a)) =
          stdout w @ [''Error: Input file '' @ quoted (input_file a) @ '' does not exist.'']
      \<and> sublist (input_file a) (last (stdout (snd (main w a))))"
    using sublist_quoted [of "input_file a" "''Error: Input file ''" "'' does not exist.''"]
    by (simp add: main_missing print_fields files_print)
  have 2: "open_rb w blf = Inl e \<and> exn_class e = FileNotFoundError \<longrightarrow>
        \<not> fst (convert_blf_to_csv w blf csv inc)
        \<and> files (snd (convert_blf_to_csv w blf csv inc)) = files w
        \<and> stdout (snd (convert_blf_to_csv w blf csv inc)) =
            stdout w @ [''Error: BLF file '' @ quoted blf @ '' not found.'']
        \<and> sublist blf (last (stdout (snd (convert_blf_to_csv w blf csv inc))))"
    using sublist_quoted [of blf "''Error: BLF file ''" "'' not found.''"]
    by (simp add: convert_result try_block_open_rb_fails print_fields files_print report_def)
  have 3: "path_exists w (str_path (Path (input_file a)))
        \<and> determine_output_path a (Path (input_file a)) = Inr out
        \<and> open_rb w (str_path (Path (input_file a))) = Inl e \<longrightarrow>
        fst (main w a) = Inr 1 \<and> files (snd (main w a)) = files w"
    by (simp add: main_convert convert_result try_block_open_rb_fails print_fields files_print)
  from 1 2 3 show ?thesis by blast
qed

theorem C7_missing_input_witness:
  "\<not> path_exists (example_world []) (str_path (Path (input_file missing_input_args)))
   \<and> main (example_world []) missing_input_args =
       (Inr 1, print ''Error: Input file 'missing.blf' does not exist.'' (example_world []))
   \<and> files (snd (main (example_world []) missing_input_args)) = Map.empty
   \<and> open_rb (example_world []) ''missing.blf'' = Inl no_such_file
   \<and> exn_class no_such_file = FileNotFoundError
   \<and> stdout (snd (convert_blf_to_csv (example_world []) ''missing.blf'' ''out.csv'' False)) =
       [''Error: BLF file 'missing.blf' not found.'']"
proof -
  have p: "str_path (Path (input_file missing_input_args)) = ''missing.blf''"
    by (simp add: missing_input_args_def Path_def str_path_def)
  have m: "open_rb (example_world []) ''missing.blf'' = Inl no_such_file"
    by (simp add: example_world_def)
  have c: "exn_class no_such_file = FileNotFoundError" by (simp add: no_such_file_def)
  have i: "input_file missing_input_args = ''missing.blf''" by (simp add: missing_input_args_def)
  have n: "\<not> path_exists (example_world []) (str_path (Path (input_file missing_input_args)))"
    by (simp add: p example_world_simps)
  have "main (example_world []) missing_input_args =
       (Inr 1, print ''Error: Input file 'missing.blf' does not exist.'' (example_world []))"
    unfolding main_missing [OF n] by (simp add: i quoted_def)
  then show ?thesis
    using C7_missing_input [of "example_world []" missing_input_args "''missing.blf''"
        no_such_file "''out.csv''" False]
    by (simp add: p m c example_world_simps quoted_def)
qed

lemma with_suffix_in_blf: "with_suffix (Path ''in.blf'') ''.csv'' = Inr (Path ''in.csv'')"
proof -
  have "parts (Path ''in.blf'') = [] @ [''in'' @ ''.'' @ ''blf'']" by (simp add: Path_def)
  then have "with_suffix (Path ''in.blf'') ''.csv'' = Inr ((Path ''in.blf'')\<lparr>parts := [] @ [''in'' @ ''.csv'']\<rparr>)"
    by (rule with_suffix_ext) simp_all
  then show ?thesis by (simp add: Path_def)
qed

text \<open>
  C8, as stated, fails: with the command line \<^verbatim>\<open>script.py in.blf ""\<close> the output argument
  is given, as the empty string, and the output path is not the path of that argument but
  \<^verbatim>\<open>in.csv\<close>, the path of the input with the suffix \<^verbatim>\<open>.csv\<close>.
\<close>

theorem C8_counterexample:
  "output_file empty_output_args = Some ''''
   \<and> determine_output_path empty_output_args (Path (input_file empty_output_args)) =
       Inr (Path ''in.csv'')
   \<and> str_path (Path ''in.csv'') = ''in.csv''
   \<and> str_path (Path '''') = ''.''
   \<and> Path ''in.csv'' \<noteq> Path ''''"
  by (simp add: empty_output_args_def determine_output_path_def with_suffix_in_blf)
     (simp add: Path_def str_path_def)

lemma rfind_absent: "rfind c xs = None \<Longrightarrow> c \<notin> set xs"
  by (induction xs) (auto split: option.splits if_splits)

lemma rfind_found:
  "rfind c xs = Some i \<Longrightarrow> xs = take i xs @ c # drop (Suc i) xs \<and> i < length xs
     \<and> c \<notin> set (drop (Suc i) xs)"
proof (induction xs arbitrary: i)
  case Nil
  then show ?case by simp
next
  case (Cons x xs)
  show ?case
  proof (cases "rfind c xs")
    case None
    with Cons.prems have "x = c" "i = 0" by (auto split: if_splits)
    with None show ?thesis by (simp add: rfind_absent)
  next
    case (Some j)
    with Cons.prems have i: "i = Suc j" by simp
    from Cons.IH [OF Some] show ?thesis unfolding i by simp
  qed
qed

lemma path_suffix_no_ext:
  assumes "\<forall>st ext. name = st @ ''.'' @ ext \<longrightarrow> st = [] \<or> ext = [] \<or> CHR ''.'' \<in> set ext"
  shows "path_suffix name = ''''"
proof (cases "rfind (CHR ''.'') name")
  case None
  then show ?thesis by (simp add: path_suffix_def)
next
  case (Some i)
  from rfind_found [OF Some]
  have d: "name = take i name @ ''.'' @ drop (Suc i) name" and l: "i < length name"
    and n: "CHR ''.'' \<notin> set (drop (Suc i) name)" by simp_all
  from assms d n have "take i name = [] \<or> drop (Suc i) name = []" by blast
  with l have "\<not> (0 < i \<and> i + 1 < length name)" by auto
  with Some show ?thesis by (simp add: path_suffix_def)
qed

lemma with_suffix_no_ext:
  assumes "parts p = ds @ [name]" "name \<noteq> []"
    "\<forall>st ext. name = st @ ''.'' @ ext \<longrightarrow> st = [] \<or> ext = [] \<or> CHR ''.'' \<in> set ext"
  shows "with_suffix p ''.csv'' = Inr (p\<lparr>parts := ds @ [name @ ''.csv'']\<rparr>)"
proof -
  have n: "path_name p = name" using assms(1) by (simp add: path_name_def)
  show ?thesis
    unfolding with_suffix_def n Let_def path_suffix_no_ext [OF assms(3)] using assms(1,2) by simp
qed

lemma Path_parts_nonempty: "name \<in> set (parts (Path s)) \<Longrightarrow> name \<noteq> []"
  by (auto simp: Path_def)

lemma main_eq:
  "path_exists w (str_path (Path (input_file a))) \<Longrightarrow>
   determine_output_path a (Path (input_file a)) = Inr out \<Longrightarrow>
   main w a = main_with_output w a out"
  by (simp add: main_def main_with_output_def banner_def Let_def split: prod.splits)

lemma banner_fields:
  "open_rb (banner w a out) = open_rb w" "open_w (banner w a out) = open_w w"
  "files (banner w a out) = files w"
  by (simp_all add: banner_def print_fields files_print)

text \<open>
  C8, amended. For an input path that exists: when the output argument is a non-empty
  string, the output path is the path parsed from it. When the output argument is absent, or
  is the empty string, and the input path has a file name, the output path is the input path
  with the extension of the file name replaced by \<^verbatim>\<open>.csv\<close>. The extension is the part of
  the name from its last dot on, when that dot is neither the first nor the last character;
  a name \<^verbatim>\<open>stem.ext\<close> of that kind becomes \<^verbatim>\<open>stem.csv\<close>, and any other name, as
  \<^verbatim>\<open>log\<close>, \<^verbatim>\<open>.hidden\<close> or \<^verbatim>\<open>name.\<close>, has no extension and gets \<^verbatim>\<open>.csv\<close> appended. In
  each case \<^verbatim>\<open>main\<close> prints its four lines, converts to that path, and returns 0 when the
  conversion succeeds and 1 when it fails. What happens for an input path without a file
  name (\<^verbatim>\<open>.\<close>, \<^verbatim>\<open>/\<close>) is left out.
\<close>

theorem C8_output_path:
  "(\<forall>s. path_exists w (str_path (Path (input_file a)))
        \<and> output_file a = Some s \<and> s \<noteq> '''' \<longrightarrow>
      main w a = main_with_output w a (Path s))
   \<and> (\<forall>ds st ext. path_exists w (str_path (Path (input_file a)))
        \<and> (output_file a = None \<or> output_file a = Some '''')
        \<and> parts (Path (input_file a)) = ds @ [st @ ''.'' @ ext]
        \<and> st \<noteq> [] \<and> ext \<noteq> [] \<and> CHR ''.'' \<notin> set ext \<longrightarrow>
      main w a = main_with_output w a ((Path (input_file a))\<lparr>parts := ds @ [st @ ''.csv'']\<rparr>))
   \<and> (\<forall>ds name. path_exists w (str_path (Path (input_file a)))
        \<and> (output_file a = None \<or> output_file a = Some '''')
        \<and> parts (Path (input_file a)) = ds @ [name]
        \<and> (\<forall>st ext. name = st @ ''.'' @ ext \<longrightarrow> st = [] \<or> ext = [] \<or> CHR ''.'' \<in> set ext) \<longrightarrow>
      main w a = main_with_output w a ((Path (input_file a))\<lparr>parts := ds @ [name @ ''.csv'']\<rparr>))
   \<and> (\<forall>out. main_with_output w a out =
        (Inr (if fst (convert_blf_to_csv (banner w a out) (str_path (Path (input_file a)))
                        (str_path out) (include_errors a)) then 0 else 1),
         snd (convert_blf_to_csv (banner w a out) (str_path (Path (input_file a)))
                (str_path out) (include_errors a)))
      \<and> open_rb (banner w a out) = open_rb w \<and> open_w (banner w a out) = open_w w
      \<and> files (banner w a out) = files w
      \<and> stdout (banner w a out) =
          stdout w @ [''Converting BLF file: '' @ str_path (Path (input_file a)),
                      ''Output CSV file: '' @ str_path out,
                      ''Include error frames: '' @ (if include_errors a then ''True'' else ''False''),
                      replicate 50 (CHR ''-'')])"
proof -
  let ?p = "Path (input_file a)"
  have d: "output_file a = None \<or> output_file a = Some '''' \<Longrightarrow>
      determine_output_path a ?p = with_suffix ?p ''.csv''"
    by (auto simp: determine_output_path_def)
  have 1: "\<forall>s. path_exists w (str_path ?p) \<and> output_file a = Some s \<and> s \<noteq> '''' \<longrightarrow>
      main w a = main_with_output w a (Path s)"
    by (auto intro!: main_eq simp: determine_output_path_def)
  have 2: "\<forall>ds st ext. path_exists w (str_path ?p)
        \<and> (output_file a = None \<or> output_file a = Some '''')
        \<and> parts ?p = ds @ [st @ ''.'' @ ext]
        \<and> st \<noteq> [] \<and> ext \<noteq> [] \<and> CHR ''.'' \<notin> set ext \<longrightarrow>
      main w a = main_with_output w a (?p\<lparr>parts := ds @ [st @ ''.csv'']\<rparr>)"
  proof (intro allI impI, elim conjE)
    fix ds st ext
    assume e: "path_exists w (str_path ?p)"
      and o: "output_file a = None \<or> output_file a = Some ''''"
      and p: "parts ?p = ds @ [st @ ''.'' @ ext]" "st \<noteq> []" "ext \<noteq> []" "CHR ''.'' \<notin> set ext"
    have "determine_output_path a ?p = Inr (?p\<lparr>parts := ds @ [st @ ''.csv'']\<rparr>)"
      unfolding d [OF o] by (rule with_suffix_ext [OF p])
    with e show "main w a = main_with_output w a (?p\<lparr>parts := ds @ [st @ ''.csv'']\<rparr>)"
      by (rule main_eq)
  qed
  have 3: "\<forall>ds name. path_exists w (str_path ?p)
        \<and> (output_file a = None \<or> output_file a = Some '''')
        \<and> parts ?p = ds @ [name]
        \<and> (\<forall>st ext. name = st @ ''.'' @ ext \<longrightarrow> st = [] \<or> ext = [] \<or> CHR ''.'' \<in> set ext) \<longrightarrow>
      main w a = main_with_output w a (?p\<lparr>parts := ds @ [name @ ''.csv'']\<rparr>)"
  proof (intro allI impI, elim conjE)
    fix ds name
    assume e: "path_exists w (str_path ?p)"
      and o: "output_file a = None \<or> output_file a = Some ''''"
      and p: "parts ?p = ds @ [name]"
      and n: "\<forall>st ext. name = st @ ''.'' @ ext \<longrightarrow> st = [] \<or> ext = [] \<or> CHR ''.'' \<in> set ext"
    from p have "name \<in> set (parts ?p)" by simp
    then have ne: "name \<noteq> []" by (rule Path_parts_nonempty)
    have "determine_output_path a ?p = Inr (?p\<lparr>parts := ds @ [name @ ''.csv'']\<rparr>)"
      unfolding d [OF o] by (rule with_suffix_no_ext [OF p ne n])
    with e show "main w a = main_with_output w a (?p\<lparr>parts := ds @ [name @ ''.csv'']\<rparr>)"
      by (rule main_eq)
  qed
  have 4: "\<forall>out. main_with_output w a out =
        (Inr (if fst (convert_blf_to_csv (banner w a out) (str_path ?p)
                        (str_path out) (include_errors a)) then 0 else 1),
         snd (convert_blf_to_csv (banner w a out) (str_path ?p)
                (str_path out) (include_errors a)))
      \<and> open_rb (banner w a out) = open_rb w \<and> open_w (banner w a out) = open_w w
      \<and> files (banner w a out) = files w
      \<and> stdout (banner w a out) =
          stdout w @ [''Converting BLF file: '' @ str_path ?p,
                      ''Output CSV file: '' @ str_path out,
                      ''Include error frames: '' @ (if include_errors a then ''True'' else ''False''),
                      replicate 50 (CHR ''-'')]"
    by (simp add: main_with_output_def banner_fields split: prod.splits)
       (simp add: banner_def print_def str_bool_def)
  from 1 2 3 4 show ?thesis by blast
qed

theorem C8_output_path_witness:
  "path_exists (example_world [Yield example_can_msg]) (str_path (Path (input_file default_output_args)))
   \<and> output_file default_output_args = None
   \<and> parts (Path (input_file default_output_args)) = [] @ [''in'' @ ''.'' @ ''blf'']
   \<and> main (example_world [Yield example_can_msg]) default_output_args =
       main_with_output (example_world [Yield example_can_msg]) default_output_args (Path ''in.csv'')
   \<and> fst (main (example_world [Yield example_can_msg]) default_output_args) = Inr 0
   \<and> files (snd (main (example_world [Yield example_can_msg]) default_output_args)) ''in.csv'' =
       Some [writeheader fieldnames, writerow fieldnames (row example_can_msg)]
   \<and> output_file given_output_args = Some ''out/log.csv''
   \<and> main (example_world [Yield example_can_msg]) given_output_args =
       main_with_output (example_world [Yield example_can_msg]) given_output_args
         (Path ''out/log.csv'')
   \<and> path_exists hidden_world (str_path (Path (input_file hidden_input_args)))
   \<and> parts (Path (input_file hidden_input_args)) = [] @ [''.hidden'']
   \<and> main hidden_world hidden_input_args =
       main_with_output hidden_world hidden_input_args (Path ''.hidden.csv'')"
proof -
  let ?w = "example_world [Yield example_can_msg]"
  note t = C8_output_path [of ?w default_output_args]
  note g = C8_output_path [of ?w given_output_args]
  have i: "input_file default_output_args = ''in.blf''" "output_file default_output_args = None"
    "include_errors default_output_args = False"
    "input_file given_output_args = ''in.blf''"
    "output_file given_output_args = Some ''out/log.csv''"
    by (simp_all add: default_output_args_def given_output_args_def)
  have s: "str_path (Path ''in.blf'') = ''in.blf''" "str_path (Path ''in.csv'') = ''in.csv''"
    by (simp_all add: Path_def str_path_def)
  have e: "path_exists ?w (str_path (Path ''in.blf''))"
    by (simp add: s example_world_simps)
  have p: "parts (Path ''in.blf'') = [] @ [''in'' @ ''.'' @ ''blf'']" by (simp add: Path_def)
  have q: "(Path ''in.blf'')\<lparr>parts := [] @ [''in'' @ ''.csv'']\<rparr> = Path ''in.csv''"
    by (simp add: Path_def)
  from t have "\<forall>ds st ext. path_exists ?w (str_path (Path (input_file default_output_args)))
        \<and> (output_file default_output_args = None \<or> output_file default_output_args = Some '''')
        \<and> parts (Path (input_file default_output_args)) = ds @ [st @ ''.'' @ ext]
        \<and> st \<noteq> [] \<and> ext \<noteq> [] \<and> CHR ''.'' \<notin> set ext \<longrightarrow>
      main ?w default_output_args = main_with_output ?w default_output_args
        ((Path (input_file default_output_args))\<lparr>parts := ds @ [st @ ''.csv'']\<rparr>)"
    by blast
  from this [rule_format, of "[]" "''in''" "''blf''"] e p
  have m1: "main ?w default_output_args = main_with_output ?w default_output_args (Path ''in.csv'')"
    unfolding i q by simp
  from g have "\<forall>s. path_exists ?w (str_path (Path (input_file given_output_args)))
        \<and> output_file given_output_args = Some s \<and> s \<noteq> '''' \<longrightarrow>
      main ?w given_output_args = main_with_output ?w given_output_args (Path s)"
    by blast
  from this [rule_format, of "''out/log.csv''"] e
  have m2: "main ?w given_output_args = main_with_output ?w given_output_args (Path ''out/log.csv'')"
    unfolding i by simp
  from t have "\<forall>out. main_with_output ?w default_output_args out =
        (Inr (if fst (convert_blf_to_csv (banner ?w default_output_args out)
                        (str_path (Path (input_file default_output_args)))
                        (str_path out) (include_errors default_output_args)) then 0 else 1),
         snd (convert_blf_to_csv (banner ?w default_output_args out)
                (str_path (Path (input_file default_output_args)))
                (str_path out) (include_errors default_output_args)))
      \<and> open_rb (banner ?w default_output_args out) = open_rb ?w
      \<and> open_w (banner ?w default_output_args out) = open_w ?w
      \<and> files (banner ?w default_output_args out) = files ?w"
    by blast
  from this [rule_format, of "Path ''in.csv''"]
  have b: "main_with_output ?w default_output_args (Path ''in.csv'') =
        (Inr (if fst (convert_blf_to_csv (banner ?w default_output_args (Path ''in.csv''))
                        ''in.blf'' ''in.csv'' False) then 0 else 1),
         snd (convert_blf_to_csv (banner ?w default_output_args (Path ''in.csv''))
                ''in.blf'' ''in.csv'' False))"
    "open_rb (banner ?w default_output_args (Path ''in.csv'')) = open_rb ?w"
    "open_w (banner ?w default_output_args (Path ''in.csv'')) = open_w ?w"
    "files (banner ?w default_output_args (Path ''in.csv'')) = files ?w"
    unfolding i s by simp_all
  have a: "open_rb (banner ?w default_output_args (Path ''in.csv'')) ''in.blf'' =
      Inr \<lparr>header_error = None, objects = [Yield example_can_msg]\<rparr>"
    "header_error \<lparr>header_error = None, objects = [Yield example_can_msg]\<rparr> = None"
    "open_w (banner ?w default_output_args (Path ''in.csv'')) ''in.csv'' = None"
    by (simp_all add: b example_world_simps)
  have wr: "written False example_can_msg" by (simp add: written_def example_can_msg_def)
  have r: "fst (main ?w default_output_args) = Inr 0"
    "files (snd (main ?w default_output_args)) ''in.csv'' =
       Some [writeheader fieldnames, writerow fieldnames (row example_can_msg)]"
    unfolding m1 b(1) by (simp_all add: convert_ok [OF a] wr b(4) example_world_simps)
  note h = C8_output_path [of hidden_world hidden_input_args]
  have hi: "input_file hidden_input_args = ''.hidden''" "output_file hidden_input_args = None"
    by (simp_all add: hidden_input_args_def)
  have hp: "parts (Path ''.hidden'') = [] @ [''.hidden'']" by (simp add: Path_def)
  have he: "path_exists hidden_world (str_path (Path ''.hidden''))"
    by (simp add: hidden_world_def example_world_def Path_def str_path_def)
  have hq: "(Path ''.hidden'')\<lparr>parts := [] @ [''.hidden'' @ ''.csv'']\<rparr> = Path ''.hidden.csv''"
    by (simp add: Path_def)
  have hn: "\<forall>st ext. ''.hidden'' = st @ ''.'' @ ext \<longrightarrow> st = [] \<or> ext = [] \<or> CHR ''.'' \<in> set ext"
  proof (intro allI impI)
    fix st ext :: string
    assume eq: "''.hidden'' = st @ ''.'' @ ext"
    show "st = [] \<or> ext = [] \<or> CHR ''.'' \<in> set ext"
    proof (cases st)
      case Nil
      then show ?thesis by simp
    next
      case (Cons c st')
      with eq have "''hidden'' = st' @ ''.'' @ ext" by simp
      then have "CHR ''.'' \<in> set ''hidden''" by (metis append_Cons in_set_conv_decomp)
      then show ?thesis by simp
    qed
  qed
  from h have "\<forall>ds name. path_exists hidden_world (str_path (Path (input_file hidden_input_args)))
        \<and> (output_file hidden_input_args = None \<or> output_file hidden_input_args = Some '''')
        \<and> parts (Path (input_file hidden_input_args)) = ds @ [name]
        \<and> (\<forall>st ext. name = st @ ''.'' @ ext \<longrightarrow> st = [] \<or> ext = [] \<or> CHR ''.'' \<in> set ext) \<longrightarrow>
      main hidden_world hidden_input_args = main_with_output hidden_world hidden_input_args
        ((Path (input_file hidden_input_args))\<lparr>parts := ds @ [name @ ''.csv'']\<rparr>)"
    by blast
  from this [rule_format, of "[]" "''.hidden''"] he hp hn
  have m3: "main hidden_world hidden_input_args =
      main_with_output hidden_world hidden_input_args (Path ''.hidden.csv'')"
    unfolding hi hq by blast
  from e p m1 m2 r he hp m3 show ?thesis unfolding i hi by simp
qed

end
